theory Spec2Isabelle
  imports Complex_Main "HOL-Library.AList"
begin

section \<open>Shared data model (src/types.ts)\<close>

text \<open>
  A thrown JavaScript \<open>Error\<close>: the optional \<open>code\<close> property that the engine attaches to
  some errors, and the message.
\<close>

datatype JsError = Error "string option" string

type_synonym CellAddress = string

definition isUpper :: "char \<Rightarrow> bool" where
  \<comment> \<open>the character class \<open>[A-Z]\<close>\<close>
  "isUpper ch = (65 \<le> (of_char ch :: int) \<and> (of_char ch :: int) \<le> 90)"

definition isDigit :: "char \<Rightarrow> bool" where
  \<comment> \<open>the character classes \<open>[0-9]\<close> and \<open>\\d\<close>\<close>
  "isDigit ch = (48 \<le> (of_char ch :: int) \<and> (of_char ch :: int) \<le> 57)"

definition toCellAddress :: "string \<Rightarrow> JsError + CellAddress" where
  \<comment> \<open>the test \<open>/^[A-Z]+[0-9]+$/\<close>: a non-empty run of capitals, then only digits, at least one\<close>
  "toCellAddress addr =
     (let letters = takeWhile isUpper addr; digits = dropWhile isUpper addr;
          valid = (letters \<noteq> [] \<and> digits \<noteq> [] \<and> list_all isDigit digits)
      in if \<not> valid then Inl (Error None (''Invalid cell address format: '' @ addr))
         else Inr addr)"

section \<open>Address codec (grid helpers)\<close>

function colToLetter_loop :: "int \<Rightarrow> string \<Rightarrow> string" where
  "colToLetter_loop c letter =
     (if c \<ge> 0
      then colToLetter_loop (c div 26 - 1) (char_of (c mod 26 + 65) # letter)
      else letter)"
  by pat_completeness auto
termination
  by (relation "measure (\<lambda>(c, letter). nat (c + 1))") auto

declare colToLetter_loop.simps [simp del]

definition colToLetter :: "int \<Rightarrow> string" where
  "colToLetter c = colToLetter_loop c []"

definition letterToCol :: "string \<Rightarrow> int" where
  "letterToCol letters = fold (\<lambda>ch c. c * 26 + (of_char ch - 65 + 1)) letters 0 - 1"

text \<open>
  \<open>String(n)\<close> for an integer \<open>n\<close> (decimal digits, a minus sign when negative) and
  \<open>parseInt\<close> on a run of decimal digits. Column and row indices are integers
  here. The code computes them as doubles, which hold every integer up to \<open>2^53\<close>
  exactly: up to there the code's arithmetic, \<open>parseInt\<close> and \<open>String\<close> are exact and
  are what the model computes; beyond, the code rounds (and prints in exponent
  notation from \<open>10^21\<close> on) and the model does not follow it. Results that range
  over all addresses are therefore stated for indices below \<open>MAX_SAFE_INTEGER\<close>,
  the largest \<open>n\<close> for which \<open>n\<close> and \<open>n + 1\<close> are both exact.
\<close>

definition MAX_SAFE_INTEGER :: int where
  "MAX_SAFE_INTEGER = 2 ^ 53 - 1"

function digits_of :: "nat \<Rightarrow> string" where
  "digits_of n =
     (if n < 10 then [char_of (48 + n)] else digits_of (n div 10) @ [char_of (48 + n mod 10)])"
  by pat_completeness auto
termination
  by (relation "measure id") auto

declare digits_of.simps [simp del]

definition String_int :: "int \<Rightarrow> string" where
  "String_int n = (if n < 0 then CHR ''-'' # digits_of (nat (- n)) else digits_of (nat n))"

definition parseInt :: "string \<Rightarrow> int" where
  "parseInt digits = fold (\<lambda>ch n. n * 10 + (of_char ch - 48)) digits 0"

record ParsedAddress =
  addr_col :: int
  addr_row :: int
  absoluteCol :: bool
  absoluteRow :: bool

definition match_address :: "string \<Rightarrow> (string \<times> string \<times> string \<times> string) option" where
  \<comment> \<open>the groups of \<open>/^(\\$?)([A-Z]+)(\\$?)(\\d+)$/\<close>, or \<open>None\<close> when the text does not match\<close>
  "match_address addr =
     (let (dollarCol, r1) = (case addr of ch # r \<Rightarrow> if ch = CHR ''$'' then (''$'', r) else ([], addr)
                                         | [] \<Rightarrow> ([], addr));
          letters = takeWhile isUpper r1;
          r2 = dropWhile isUpper r1;
          (dollarRow, digits) = (case r2 of ch # r \<Rightarrow> if ch = CHR ''$'' then (''$'', r) else ([], r2)
                                           | [] \<Rightarrow> ([], r2))
      in if letters \<noteq> [] \<and> digits \<noteq> [] \<and> list_all isDigit digits
         then Some (dollarCol, letters, dollarRow, digits) else None)"

definition parseAddress :: "string \<Rightarrow> JsError + ParsedAddress" where
  "parseAddress addr =
     (case match_address addr of
        None \<Rightarrow> Inl (Error None (''Invalid cell address: '' @ addr))
      | Some (dollarCol, letters, dollarRow, digits) \<Rightarrow>
          Inr \<lparr>addr_col = letterToCol letters,
               addr_row = parseInt digits - 1,
               absoluteCol = (dollarCol = ''$''),
               absoluteRow = (dollarRow = ''$'')\<rparr>)"

definition formatAddress :: "int \<Rightarrow> int \<Rightarrow> bool \<Rightarrow> bool \<Rightarrow> JsError + CellAddress" where
  "formatAddress c r absCol absRow =
     (let colPart = (if absCol then ''$'' else []);
          rowPart = (if absRow then ''$'' else [])
      in toCellAddress (colPart @ colToLetter c @ rowPart @ String_int (r + 1)))"

text \<open>
  The two optional-index arguments of \<open>adjustReference\<close> (\<open>{row?, col?}\<close>) and its
  \<open>isAbsolute\<close> argument (\<open>{col, row}\<close>).
\<close>

datatype Position = Position (pos_row: "int option") (pos_col: "int option")

datatype AbsFlags = AbsFlags (abs_col: bool) (abs_row: bool)

definition adjustReference ::
  "CellAddress \<Rightarrow> Position \<Rightarrow> Position \<Rightarrow> AbsFlags \<Rightarrow> JsError + CellAddress" where
  "adjustReference addr insertedAt deletedAt isAbsolute =
     (case parseAddress addr of
        Inl e \<Rightarrow> Inl e
      | Inr parsed \<Rightarrow>
          (let c0 = addr_col parsed; r0 = addr_row parsed;
               c1 = (if pos_col insertedAt \<noteq> None \<and> \<not> abs_col isAbsolute
                        \<and> c0 \<ge> the (pos_col insertedAt) then c0 + 1 else c0);
               r1 = (if pos_row insertedAt \<noteq> None \<and> \<not> abs_row isAbsolute
                        \<and> r0 \<ge> the (pos_row insertedAt) then r0 + 1 else r0);
               c2 = (if pos_col deletedAt \<noteq> None \<and> \<not> abs_col isAbsolute
                        \<and> c1 > the (pos_col deletedAt) then c1 - 1 else c1);
               r2 = (if pos_row deletedAt \<noteq> None \<and> \<not> abs_row isAbsolute
                        \<and> r1 > the (pos_row deletedAt) then r1 - 1 else r1)
           in formatAddress c2 r2 (abs_col isAbsolute) (abs_row isAbsolute)))"

section \<open>Dependency graph (class DependencyGraph of the engine)\<close>

text \<open>
  The two private fields are JavaScript \<open>Map\<close>s from an address to a \<open>Set\<close> of
  addresses. Both containers iterate in insertion order, and \<open>getEvaluationOrder\<close>
  iterates over a set, so a \<open>Map\<close> is an association list (\<open>map_of\<close> looks a key
  up, \<open>AList.update\<close> is \<open>Map.set\<close>, \<open>AList.delete\<close> is \<open>Map.delete\<close>) and a
  \<open>Set\<close> is a list without duplicates in insertion order.
\<close>

definition Set_add :: "'a \<Rightarrow> 'a list \<Rightarrow> 'a list" where
  "Set_add x xs = (if x \<in> set xs then xs else xs @ [x])"

definition Set_delete :: "'a \<Rightarrow> 'a list \<Rightarrow> 'a list" where
  "Set_delete x xs = removeAll x xs"

record DependencyGraph =
  dependencies :: "(CellAddress \<times> CellAddress list) list"
  dependents :: "(CellAddress \<times> CellAddress list) list"

definition new_DependencyGraph :: DependencyGraph where
  "new_DependencyGraph = \<lparr>dependencies = [], dependents = []\<rparr>"

definition addDependency :: "CellAddress \<Rightarrow> CellAddress \<Rightarrow> DependencyGraph \<Rightarrow> DependencyGraph" where
  "addDependency from to g =
     (let deps0 = (if map_of (dependencies g) from = None
                   then AList.update from [] (dependencies g) else dependencies g);
          deps1 = AList.update from (Set_add to (the (map_of deps0 from))) deps0;
          dpts0 = (if map_of (dependents g) to = None
                   then AList.update to [] (dependents g) else dependents g);
          dpts1 = AList.update to (Set_add from (the (map_of dpts0 to))) dpts0
      in \<lparr>dependencies = deps1, dependents = dpts1\<rparr>)"

definition removeDependencies :: "CellAddress \<Rightarrow> DependencyGraph \<Rightarrow> DependencyGraph" where
  "removeDependencies cell g =
     (case map_of (dependencies g) cell of
        None \<Rightarrow> g
      | Some deps \<Rightarrow>
          \<lparr>dependencies = AList.delete cell (dependencies g),
           dependents =
             fold (\<lambda>dep dpts. case map_of dpts dep of
                                 None \<Rightarrow> dpts
                               | Some ds \<Rightarrow> AList.update dep (Set_delete cell ds) dpts)
                  deps (dependents g)\<rparr>)"

definition getDependencies :: "DependencyGraph \<Rightarrow> CellAddress \<Rightarrow> CellAddress list" where
  "getDependencies g cell = (case map_of (dependencies g) cell of None \<Rightarrow> [] | Some ds \<Rightarrow> ds)"

definition getDependents :: "DependencyGraph \<Rightarrow> CellAddress \<Rightarrow> CellAddress list" where
  "getDependents g cell = (case map_of (dependents g) cell of None \<Rightarrow> [] | Some ds \<Rightarrow> ds)"

text \<open>
  A finite sequence of calls on a graph that starts empty.
\<close>

datatype GraphCall = AddDependency CellAddress CellAddress | RemoveDependencies CellAddress

fun call :: "DependencyGraph \<Rightarrow> GraphCall \<Rightarrow> DependencyGraph" where
  "call g (AddDependency from to) = addDependency from to g"
| "call g (RemoveDependencies cell) = removeDependencies cell g"

definition after_calls :: "GraphCall list \<Rightarrow> DependencyGraph" where
  "after_calls cs = foldl call new_DependencyGraph cs"

text \<open>
  The invariant of the data model: the two maps are inverses of each other.
\<close>

definition inverse_maps :: "DependencyGraph \<Rightarrow> bool" where
  "inverse_maps g = (\<forall>a b. b \<in> set (getDependencies g a) \<longleftrightarrow> a \<in> set (getDependents g b))"

text \<open>
  \<open>getEvaluationOrder\<close>: the inner function \<open>visit\<close> recurses through the
  dependencies of a cell, threading the \<open>visited\<close> set and the \<open>result\<close> array. The
  first argument bounds the depth of the recursion; \<open>None\<close> means the bound was
  reached. \<open>visit_all\<close> is the \<open>forEach\<close> loop, over the dependencies of a cell and
  over the requested cells.
\<close>

fun visit :: "nat \<Rightarrow> DependencyGraph \<Rightarrow> CellAddress \<Rightarrow> CellAddress set \<times> CellAddress list
                \<Rightarrow> (CellAddress set \<times> CellAddress list) option"
  and visit_all :: "nat \<Rightarrow> DependencyGraph \<Rightarrow> CellAddress list \<Rightarrow> CellAddress set \<times> CellAddress list
                \<Rightarrow> (CellAddress set \<times> CellAddress list) option" where
  "visit 0 g cell (visited, result) = None"
| "visit (Suc n) g cell (visited, result) =
     (if cell \<in> visited then Some (visited, result)
      else case visit_all n g (getDependencies g cell) (insert cell visited, result) of
             None \<Rightarrow> None
           | Some (visited', result') \<Rightarrow> Some (visited', result' @ [cell]))"
| "visit_all n g [] st = Some st"
| "visit_all n g (cell # cells) st =
     (case visit n g cell st of
        None \<Rightarrow> None
      | Some st' \<Rightarrow> visit_all n g cells st')"

definition getEvaluationOrder :: "nat \<Rightarrow> DependencyGraph \<Rightarrow> CellAddress list \<Rightarrow> CellAddress list option" where
  "getEvaluationOrder n g cells = map_option snd (visit_all n g cells ({}, []))"

text \<open>
  The relation \<open>dependsOn\<close> of the graph, the cells reachable from a set of
  requested cells, and every address the graph or the request mentions.
\<close>

definition dependsOn :: "DependencyGraph \<Rightarrow> (CellAddress \<times> CellAddress) set" where
  "dependsOn g = {(a, b). b \<in> set (getDependencies g a)}"

definition reachable :: "DependencyGraph \<Rightarrow> CellAddress list \<Rightarrow> CellAddress set" where
  "reachable g cells = (dependsOn g)\<^sup>* `` set cells"

definition mentioned :: "DependencyGraph \<Rightarrow> CellAddress list \<Rightarrow> CellAddress set" where
  "mentioned g cells =
     set cells \<union> fst ` set (dependencies g) \<union> (\<Union>kv \<in> set (dependencies g). set (snd kv))"

text \<open>
  Two statements used in the analysis of \<open>visit\<close>. \<open>post_order g V xs\<close>: every
  dependency of an element of \<open>xs\<close> is in \<open>V\<close> or earlier in \<open>xs\<close>, unless the
  element lies on a cycle. \<open>visit_post\<close>: what a call that started in state
  \<open>(V, R)\<close> for the cells \<open>S\<close> has done when it returns \<open>(V', R')\<close>.
\<close>

fun post_order :: "DependencyGraph \<Rightarrow> CellAddress set \<Rightarrow> CellAddress list \<Rightarrow> bool" where
  "post_order g V [] = True"
| "post_order g V (x # xs) =
     ((\<forall>d \<in> set (getDependencies g x). d \<in> V \<or> (x, x) \<in> (dependsOn g)\<^sup>+) \<and>
      post_order g (insert x V) xs)"

definition visit_post ::
  "DependencyGraph \<Rightarrow> CellAddress set \<Rightarrow> CellAddress set \<times> CellAddress list
     \<Rightarrow> CellAddress set \<times> CellAddress list \<Rightarrow> bool" where
  "visit_post g S st st' =
     (\<exists>new. snd st' = snd st @ new \<and> fst st' = fst st \<union> set new \<and> distinct new \<and>
            set new \<inter> fst st = {} \<and> set new \<subseteq> (dependsOn g)\<^sup>* `` S \<and> S \<subseteq> fst st' \<and>
            post_order g (fst st) new)"

text \<open>
  A small graph used to exercise the results: \<open>A1\<close> reads \<open>C1\<close> and \<open>B1\<close>, and
  \<open>C1\<close> reads \<open>B1\<close>.
\<close>

definition example_graph :: DependencyGraph where
  "example_graph =
     addDependency ''C1'' ''B1'' (addDependency ''A1'' ''B1''
       (addDependency ''A1'' ''C1'' new_DependencyGraph))"

section \<open>Formula engine (class FormulaEngine)\<close>

text \<open>
  A JavaScript number is a finite number, a negative zero, \<open>NaN\<close> or an infinity.
  \<open>Num 0\<close> is the positive zero. The finite numbers are idealised as reals: the
  special values and the rules that produce them are those of the language, the
  rounding of finite results to doubles (with overflow and underflow) is left out of
  the operations defined here. Negation and the comparisons do not round.
\<close>

datatype JsNumber = Num real | NegZero | NaN | Infinity | NegInfinity

definition is_zero :: "JsNumber \<Rightarrow> bool" where
  "is_zero a = (a = Num 0 \<or> a = NegZero)"

definition is_infinity :: "JsNumber \<Rightarrow> bool" where
  "is_infinity a = (a = Infinity \<or> a = NegInfinity)"

fun negative :: "JsNumber \<Rightarrow> bool" where
  "negative (Num x) = (x < 0)"
| "negative NegZero = True"
| "negative NegInfinity = True"
| "negative a = False"

fun magnitude :: "JsNumber \<Rightarrow> real" where
  "magnitude (Num x) = x"
| "magnitude a = 0"

fun num_neg :: "JsNumber \<Rightarrow> JsNumber" where
  "num_neg (Num x) = (if x = 0 then NegZero else Num (- x))"
| "num_neg NegZero = Num 0"
| "num_neg NaN = NaN"
| "num_neg Infinity = NegInfinity"
| "num_neg NegInfinity = Infinity"

definition num_add :: "JsNumber \<Rightarrow> JsNumber \<Rightarrow> JsNumber" where
  "num_add a b =
     (if a = NaN \<or> b = NaN then NaN
      else if a = Infinity then (if b = NegInfinity then NaN else Infinity)
      else if a = NegInfinity then (if b = Infinity then NaN else NegInfinity)
      else if is_infinity b then b
      else if a = NegZero then b
      else if b = NegZero then a
      else Num (magnitude a + magnitude b))"

definition num_sub :: "JsNumber \<Rightarrow> JsNumber \<Rightarrow> JsNumber" where
  "num_sub a b = num_add a (num_neg b)"

definition num_mul :: "JsNumber \<Rightarrow> JsNumber \<Rightarrow> JsNumber" where
  "num_mul a b =
     (if a = NaN \<or> b = NaN then NaN
      else if (is_infinity a \<and> is_zero b) \<or> (is_zero a \<and> is_infinity b) then NaN
      else if is_infinity a \<or> is_infinity b
        then (if negative a \<noteq> negative b then NegInfinity else Infinity)
      else if is_zero a \<or> is_zero b
        then (if negative a \<noteq> negative b then NegZero else Num 0)
      else Num (magnitude a * magnitude b))"

definition num_div :: "JsNumber \<Rightarrow> JsNumber \<Rightarrow> JsNumber" where
  "num_div a b =
     (if a = NaN \<or> b = NaN then NaN
      else if (is_infinity a \<and> is_infinity b) \<or> (is_zero a \<and> is_zero b) then NaN
      else if is_infinity a \<or> is_zero b
        then (if negative a \<noteq> negative b then NegInfinity else Infinity)
      else if is_infinity b \<or> is_zero a
        then (if negative a \<noteq> negative b then NegZero else Num 0)
      else Num (magnitude a / magnitude b))"

definition num_less :: "JsNumber \<Rightarrow> JsNumber \<Rightarrow> bool" where
  \<comment> \<open>\<open>a < b\<close>; false when either is \<open>NaN\<close>; the two zeros compare equal\<close>
  "num_less a b =
     (if a = NaN \<or> b = NaN then False
      else if a = Infinity \<or> b = NegInfinity then False
      else if b = Infinity \<or> a = NegInfinity then True
      else magnitude a < magnitude b)"

definition num_eq :: "JsNumber \<Rightarrow> JsNumber \<Rightarrow> bool" where
  \<comment> \<open>\<open>a === b\<close> on numbers\<close>
  "num_eq a b = (a \<noteq> NaN \<and> b \<noteq> NaN \<and> (a = b \<or> (is_zero a \<and> is_zero b)))"

definition num_le :: "JsNumber \<Rightarrow> JsNumber \<Rightarrow> bool" where
  \<comment> \<open>\<open>a <= b\<close>: not \<open>b < a\<close>, and false when either is \<open>NaN\<close>\<close>
  "num_le a b = (a \<noteq> NaN \<and> b \<noteq> NaN \<and> \<not> num_less b a)"

definition is_integer :: "real \<Rightarrow> bool" where
  "is_integer y = (real_of_int \<lfloor>y\<rfloor> = y)"

definition odd_integer :: "JsNumber \<Rightarrow> bool" where
  "odd_integer b = (case b of Num y \<Rightarrow> is_integer y \<and> odd \<lfloor>y\<rfloor> | _ \<Rightarrow> False)"

definition Math_pow :: "JsNumber \<Rightarrow> JsNumber \<Rightarrow> JsNumber" where
  \<comment> \<open>the case analysis of the language; the last case is the real power\<close>
  "Math_pow base exponent =
     (if exponent = NaN then NaN
      else if is_zero exponent then Num 1
      else if base = NaN then NaN
      else if base = Infinity then (if \<not> negative exponent then Infinity else Num 0)
      else if base = NegInfinity then
        (if \<not> negative exponent
         then (if odd_integer exponent then NegInfinity else Infinity)
         else (if odd_integer exponent then NegZero else Num 0))
      else if base = Num 0 then (if \<not> negative exponent then Num 0 else Infinity)
      else if base = NegZero then
        (if \<not> negative exponent
         then (if odd_integer exponent then NegZero else Num 0)
         else (if odd_integer exponent then NegInfinity else Infinity))
      else if exponent = Infinity then
        (if \<bar>magnitude base\<bar> > 1 then Infinity
         else if \<bar>magnitude base\<bar> = 1 then NaN else Num 0)
      else if exponent = NegInfinity then
        (if \<bar>magnitude base\<bar> > 1 then Num 0
         else if \<bar>magnitude base\<bar> = 1 then NaN else Infinity)
      else
        (let x = magnitude base; y = magnitude exponent
         in if is_integer y
            then Num (if 0 \<le> y then x ^ nat \<lfloor>y\<rfloor> else inverse (x ^ nat \<lfloor>- y\<rfloor>))
            else if x < 0 then NaN
            else Num (x powr y)))"

text \<open>
  Values, syntax trees, cells and sheets, from src/types.ts. A literal cell holds a
  number, a string or a boolean, never \<open>null\<close>. Of a sheet the engine reads the
  \<open>cells\<close> object only.
\<close>

datatype CellValue = VNumber JsNumber | VString string | VBoolean bool | VNull

datatype FormulaAst =
    NumberLiteral JsNumber
  | StringLiteral string
  | BooleanLiteral bool
  | CellRef CellAddress bool bool
  | RangeRef CellAddress CellAddress
  | FunctionCall string "FormulaAst list"
  | BinaryOp string FormulaAst FormulaAst
  | UnaryOp FormulaAst

datatype ErrorCode = CYCLE | REF | PARSE | DIV0 | EVAL

fun code_text :: "ErrorCode \<Rightarrow> string" where
  "code_text CYCLE = ''CYCLE''"
| "code_text REF = ''REF''"
| "code_text PARSE = ''PARSE''"
| "code_text DIV0 = ''DIV0''"
| "code_text EVAL = ''EVAL''"

datatype Cell =
    LiteralCell CellValue
  | FormulaCell string FormulaAst
  | ErrorCell string ErrorCode

record Sheet =
  sheet_cells :: "CellAddress \<rightharpoonup> Cell"

record EvalResult =
  result_value :: CellValue
  result_error :: "(string \<times> string) option"

text \<open>
  What \<open>evaluateAst\<close> returns: a scalar, or the array a range evaluates to.
\<close>

datatype AstValue = Scalar CellValue | Array "CellValue list"

subsection \<open>Host functions\<close>

text \<open>
  \<open>String(v)\<close>. On a finite number it agrees with JavaScript for integers below
  \<open>10^21\<close> in magnitude; for other finite numbers it is the decimal expansion cut
  after 16 fractional digits, which is only close to what JavaScript prints for the
  nearest double.
\<close>

fun frac_digits :: "nat \<Rightarrow> real \<Rightarrow> string" where
  "frac_digits 0 x = []"
| "frac_digits (Suc k) x =
     (if x = 0 then []
      else char_of (48 + nat \<lfloor>x * 10\<rfloor>) # frac_digits k (x * 10 - real_of_int \<lfloor>x * 10\<rfloor>))"

definition finite_toString :: "real \<Rightarrow> string" where
  "finite_toString x =
     (let a = \<bar>x\<bar>;
          whole = digits_of (nat \<lfloor>a\<rfloor>);
          fraction = (if frac a = 0 then [] else CHR ''.'' # frac_digits 16 (frac a))
      in (if x < 0 then ''-'' else []) @ whole @ fraction)"

fun Number_toString :: "JsNumber \<Rightarrow> string" where
  "Number_toString (Num x) = finite_toString x"
| "Number_toString NegZero = ''0''"
| "Number_toString NaN = ''NaN''"
| "Number_toString Infinity = ''Infinity''"
| "Number_toString NegInfinity = ''-Infinity''"

text \<open>
  What \<open>+\<close>, \<open>-\<close>, \<open>*\<close>, \<open>/\<close> and \<open>Math.pow\<close> return on two numbers, and the text
  \<open>String\<close> gives for a number, depend on the rounding of doubles. The evaluator
  takes these six operations of the language as a parameter \<open>ops\<close>: what is proved
  of it for every \<open>ops\<close> holds for the arithmetic of the language, which rounds each
  finite result to a double, whatever that rounding is. \<open>exact_arithmetic\<close> is the
  arithmetic without rounding defined above; it agrees with the language wherever
  the exact result is a double, as in the examples evaluated below.
\<close>

record Arithmetic =
  arith_add :: "JsNumber \<Rightarrow> JsNumber \<Rightarrow> JsNumber"
  arith_sub :: "JsNumber \<Rightarrow> JsNumber \<Rightarrow> JsNumber"
  arith_mul :: "JsNumber \<Rightarrow> JsNumber \<Rightarrow> JsNumber"
  arith_div :: "JsNumber \<Rightarrow> JsNumber \<Rightarrow> JsNumber"
  arith_pow :: "JsNumber \<Rightarrow> JsNumber \<Rightarrow> JsNumber"
  arith_toString :: "JsNumber \<Rightarrow> string"

definition exact_arithmetic :: Arithmetic where
  "exact_arithmetic =
     \<lparr>arith_add = num_add, arith_sub = num_sub, arith_mul = num_mul, arith_div = num_div,
      arith_pow = Math_pow, arith_toString = Number_toString\<rparr>"

fun String_value :: "Arithmetic \<Rightarrow> CellValue \<Rightarrow> string" where
  "String_value ops (VNumber x) = arith_toString ops x"
| "String_value ops (VString s) = s"
| "String_value ops (VBoolean b) = (if b then ''true'' else ''false'')"
| "String_value ops VNull = ''null''"

fun join_comma :: "string list \<Rightarrow> string" where
  "join_comma [] = []"
| "join_comma [s] = s"
| "join_comma (s # t # ss) = s @ '','' @ join_comma (t # ss)"

fun String_ast_value :: "Arithmetic \<Rightarrow> AstValue \<Rightarrow> string" where
  "String_ast_value ops (Scalar v) = String_value ops v"
| "String_ast_value ops (Array vs) =
     join_comma (map (\<lambda>v. if v = VNull then [] else String_value ops v) vs)"

definition toUpperCase :: "string \<Rightarrow> string" where
  \<comment> \<open>on the letters \<open>a\<close> to \<open>z\<close>; other characters of a function name are left alone\<close>
  "toUpperCase s =
     map (\<lambda>ch. if 97 \<le> (of_char ch :: nat) \<and> (of_char ch :: nat) \<le> 122
                then char_of ((of_char ch :: nat) - 32) else ch) s"

fun value_equal :: "CellValue \<Rightarrow> CellValue \<Rightarrow> bool" where
  \<comment> \<open>\<open>===\<close> on scalars: same type and same value, numbers by \<open>num_eq\<close>\<close>
  "value_equal (VNumber a) (VNumber b) = num_eq a b"
| "value_equal (VString s) (VString t) = (s = t)"
| "value_equal (VBoolean p) (VBoolean q) = (p = q)"
| "value_equal VNull VNull = True"
| "value_equal x y = False"

definition strict_equal :: "AstValue \<Rightarrow> AstValue \<Rightarrow> bool" where
  \<comment> \<open>\<open>===\<close>: two arrays made by two evaluations are never the same object\<close>
  "strict_equal a b = (case (a, b) of (Scalar x, Scalar y) \<Rightarrow> value_equal x y | _ \<Rightarrow> False)"

definition js_truthy :: "CellValue \<Rightarrow> bool" where
  \<comment> \<open>the truthiness of the language: false for null, false, both zeros, NaN and the empty string\<close>
  "js_truthy v = (case v of VNull \<Rightarrow> False | VBoolean b \<Rightarrow> b
                  | VNumber x \<Rightarrow> \<not> is_zero x \<and> x \<noteq> NaN
                  | VString s \<Rightarrow> s \<noteq> [])"

subsection \<open>Helpers of the engine\<close>

definition ensureScalar :: "AstValue \<Rightarrow> string \<Rightarrow> JsError + CellValue" where
  "ensureScalar v context =
     (case v of
        Array vs \<Rightarrow> Inl (Error None (context @ '': ranges are not allowed here''))
      | Scalar s \<Rightarrow> Inr s)"

fun sequence_results :: "('e + 'a) list \<Rightarrow> 'e + 'a list" where
  "sequence_results [] = Inr []"
| "sequence_results (Inl e # rs) = Inl e"
| "sequence_results (Inr x # rs) = (case sequence_results rs of Inl e \<Rightarrow> Inl e | Inr xs \<Rightarrow> Inr (x # xs))"

definition getCellsInRange :: "CellAddress \<Rightarrow> CellAddress \<Rightarrow> JsError + CellAddress list" where
  "getCellsInRange startAddr endAddr =
     (case parseAddress startAddr of
        Inl e \<Rightarrow> Inl e
      | Inr startParsed \<Rightarrow>
     (case parseAddress endAddr of
        Inl e \<Rightarrow> Inl e
      | Inr endParsed \<Rightarrow>
          (let minCol = min (addr_col startParsed) (addr_col endParsed);
               maxCol = max (addr_col startParsed) (addr_col endParsed);
               minRow = min (addr_row startParsed) (addr_row endParsed);
               maxRow = max (addr_row startParsed) (addr_row endParsed)
           in sequence_results
                (concat (map (\<lambda>r. map (\<lambda>c. formatAddress c r False False) [minCol..maxCol])
                             [minRow..maxRow])))))"

definition exact_address :: "CellAddress \<Rightarrow> bool" where
  "exact_address addr =
     (case parseAddress addr of
        Inl e \<Rightarrow> True
      | Inr p \<Rightarrow> addr_col p < MAX_SAFE_INTEGER \<and> addr_row p < MAX_SAFE_INTEGER)"

definition exact_range :: "CellAddress \<Rightarrow> CellAddress \<Rightarrow> bool" where
  \<comment> \<open>the indices of both corners are below \<open>2^53 - 1\<close>: \<open>getCellsInRange\<close> computes in exact doubles\<close>
  "exact_range startAddr endAddr = (exact_address startAddr \<and> exact_address endAddr)"

text \<open>
  The aggregate functions loop over their arguments, evaluating one and folding its
  value into an accumulator before the next. Folding has no effect and cannot throw,
  so the model evaluates the arguments in order first (\<open>evaluateArgs\<close> below, which
  stops at the first throw) and folds afterwards. \<open>numeric_operands\<close> lists, in
  order, the numbers among the values, those inside arrays included.
\<close>

fun numeric_operands :: "AstValue list \<Rightarrow> JsNumber list" where
  "numeric_operands [] = []"
| "numeric_operands (Array vs # rest) =
     concat (map (\<lambda>v. case v of VNumber x \<Rightarrow> [x] | _ \<Rightarrow> []) vs) @ numeric_operands rest"
| "numeric_operands (Scalar (VNumber x) # rest) = x # numeric_operands rest"
| "numeric_operands (Scalar v # rest) = numeric_operands rest"

definition SUM_of :: "Arithmetic \<Rightarrow> AstValue list \<Rightarrow> CellValue" where
  "SUM_of ops vals = VNumber (foldl (arith_add ops) (Num 0) (numeric_operands vals))"

definition AVG_of :: "Arithmetic \<Rightarrow> AstValue list \<Rightarrow> CellValue" where
  "AVG_of ops vals =
     (let total = foldl (arith_add ops) (Num 0) (numeric_operands vals);
          count = length (numeric_operands vals)
      in VNumber (if count > 0 then arith_div ops total (Num (real count)) else Num 0))"

definition MIN_of :: "AstValue list \<Rightarrow> CellValue" where
  "MIN_of vals =
     (let least = foldl (\<lambda>m v. if num_less v m then v else m) Infinity (numeric_operands vals)
      in VNumber (if num_eq least Infinity then Num 0 else least))"

definition MAX_of :: "AstValue list \<Rightarrow> CellValue" where
  "MAX_of vals =
     (let greatest = foldl (\<lambda>m v. if num_less m v then v else m) NegInfinity (numeric_operands vals)
      in VNumber (if num_eq greatest NegInfinity then Num 0 else greatest))"

fun COUNT_loop :: "AstValue list \<Rightarrow> nat" where
  "COUNT_loop [] = 0"
| "COUNT_loop (Array vs # rest) = length (filter (\<lambda>v. v \<noteq> VNull) vs) + COUNT_loop rest"
| "COUNT_loop (Scalar v # rest) = (if v \<noteq> VNull then 1 else 0) + COUNT_loop rest"

definition COUNT_of :: "AstValue list \<Rightarrow> CellValue" where
  "COUNT_of vals = VNumber (Num (real (COUNT_loop vals)))"

text \<open>
  The first switch of \<open>evaluateBinaryOp\<close>, entered when both operands are numbers:
  the value returned or the error thrown, or \<open>None\<close> when no case matches and control
  falls through to the rest of the function.
\<close>

definition numeric_case :: "Arithmetic \<Rightarrow> string \<Rightarrow> JsNumber \<Rightarrow> JsNumber \<Rightarrow> (JsError + CellValue) option" where
  "numeric_case ops op l r =
     (if op = ''+'' then Some (Inr (VNumber (arith_add ops l r)))
      else if op = ''-'' then Some (Inr (VNumber (arith_sub ops l r)))
      else if op = ''*'' then Some (Inr (VNumber (arith_mul ops l r)))
      else if op = ''/'' then
        (if num_eq r (Num 0) then Some (Inl (Error None ''Division by zero''))
         else Some (Inr (VNumber (arith_div ops l r))))
      else if op = ''^'' then Some (Inr (VNumber (arith_pow ops l r)))
      else if op = ''<'' then Some (Inr (VBoolean (num_less l r)))
      else if op = ''<='' then Some (Inr (VBoolean (num_le l r)))
      else if op = ''>'' then Some (Inr (VBoolean (num_less r l)))
      else if op = ''>='' then Some (Inr (VBoolean (num_le r l)))
      else if op = ''='' then Some (Inr (VBoolean (num_eq l r)))
      else if op = ''<>'' then Some (Inr (VBoolean (\<not> num_eq l r)))
      else None)"

definition is_string :: "AstValue \<Rightarrow> bool" where
  "is_string v = (case v of Scalar (VString s) \<Rightarrow> True | _ \<Rightarrow> False)"

definition binary_result :: "Arithmetic \<Rightarrow> string \<Rightarrow> AstValue \<Rightarrow> AstValue \<Rightarrow> JsError + CellValue" where
  "binary_result ops op leftValue rightValue =
     (case (case (leftValue, rightValue) of
              (Scalar (VNumber l), Scalar (VNumber r)) \<Rightarrow> numeric_case ops op l r
            | _ \<Rightarrow> None) of
        Some res \<Rightarrow> res
      | None \<Rightarrow>
          if op = ''+'' \<and> (is_string leftValue \<or> is_string rightValue)
          then Inr (VString (String_ast_value ops leftValue @ String_ast_value ops rightValue))
          else if op = ''='' then Inr (VBoolean (strict_equal leftValue rightValue))
          else if op = ''<>'' then Inr (VBoolean (\<not> strict_equal leftValue rightValue))
          else Inl (Error None (''Invalid operation: '' @ String_ast_value ops leftValue @ '' '' @ op
                                  @ '' '' @ String_ast_value ops rightValue)))"

subsection \<open>The evaluator\<close>

text \<open>
  The evaluation context is the sheet and the mutable \<open>visited\<close> set, threaded through
  every call (\<open>currentCell\<close> and \<open>trace\<close> are never read). A call yields \<open>Some (Inr
  (v, visited'))\<close> when it returns \<open>v\<close>, \<open>Some (Inl e)\<close> when it throws \<open>e\<close> (the
  only handler is in \<open>evaluateCell\<close>, which discards the context), and \<open>None\<close> when
  it would follow more nested formula cells than the bound \<open>n\<close> allows, or when it
  comes to a range with a corner whose index is beyond the exact doubles, of which
  the model says nothing.
\<close>

type_synonym 'a outcome = "(JsError + 'a \<times> CellAddress set) option"

function (sequential) evaluateAst :: "Arithmetic \<Rightarrow> nat \<Rightarrow> Sheet \<Rightarrow> FormulaAst \<Rightarrow> CellAddress set \<Rightarrow> AstValue outcome"
  and evaluateCellRef :: "Arithmetic \<Rightarrow> nat \<Rightarrow> Sheet \<Rightarrow> CellAddress \<Rightarrow> CellAddress set \<Rightarrow> CellValue outcome"
  and evaluateRefs :: "Arithmetic \<Rightarrow> nat \<Rightarrow> Sheet \<Rightarrow> CellAddress list \<Rightarrow> CellAddress set \<Rightarrow> (CellValue list) outcome"
  and evaluateArgs :: "Arithmetic \<Rightarrow> nat \<Rightarrow> Sheet \<Rightarrow> FormulaAst list \<Rightarrow> CellAddress set \<Rightarrow> (AstValue list) outcome"
  and evaluateFunction :: "Arithmetic \<Rightarrow> nat \<Rightarrow> Sheet \<Rightarrow> string \<Rightarrow> FormulaAst list \<Rightarrow> CellAddress set \<Rightarrow> CellValue outcome"
  and evaluateBinaryOp :: "Arithmetic \<Rightarrow> nat \<Rightarrow> Sheet \<Rightarrow> string \<Rightarrow> FormulaAst \<Rightarrow> FormulaAst \<Rightarrow> CellAddress set \<Rightarrow> CellValue outcome"
where
  "evaluateAst ops n sheet (NumberLiteral x) visited = Some (Inr (Scalar (VNumber x), visited))"
| "evaluateAst ops n sheet (StringLiteral s) visited = Some (Inr (Scalar (VString s), visited))"
| "evaluateAst ops n sheet (BooleanLiteral b) visited = Some (Inr (Scalar (VBoolean b), visited))"
| "evaluateAst ops n sheet (CellRef address absCol absRow) visited =
     (case evaluateCellRef ops n sheet address visited of
        None \<Rightarrow> None
      | Some (Inl e) \<Rightarrow> Some (Inl e)
      | Some (Inr (v, visited')) \<Rightarrow> Some (Inr (Scalar v, visited')))"
| "evaluateAst ops n sheet (RangeRef startAddr endAddr) visited =
     (case getCellsInRange startAddr endAddr of
        Inl e \<Rightarrow> Some (Inl e)
      | Inr addrs \<Rightarrow>
          if \<not> exact_range startAddr endAddr then None
          else
            (case evaluateRefs ops n sheet addrs visited of
               None \<Rightarrow> None
             | Some (Inl e) \<Rightarrow> Some (Inl e)
             | Some (Inr (vs, visited')) \<Rightarrow> Some (Inr (Array vs, visited'))))"
| "evaluateAst ops n sheet (FunctionCall name args) visited =
     (case evaluateFunction ops n sheet name args visited of
        None \<Rightarrow> None
      | Some (Inl e) \<Rightarrow> Some (Inl e)
      | Some (Inr (v, visited')) \<Rightarrow> Some (Inr (Scalar v, visited')))"
| "evaluateAst ops n sheet (BinaryOp op left right) visited =
     (case evaluateBinaryOp ops n sheet op left right visited of
        None \<Rightarrow> None
      | Some (Inl e) \<Rightarrow> Some (Inl e)
      | Some (Inr (v, visited')) \<Rightarrow> Some (Inr (Scalar v, visited')))"
| "evaluateAst ops n sheet (UnaryOp operand) visited =
     (case evaluateAst ops n sheet operand visited of
        None \<Rightarrow> None
      | Some (Inl e) \<Rightarrow> Some (Inl e)
      | Some (Inr (Scalar (VNumber x), visited')) \<Rightarrow>
          Some (Inr (Scalar (VNumber (num_neg x)), visited'))
      | Some (Inr (_, visited')) \<Rightarrow> Some (Inl (Error None ''Cannot negate non-number'')))"

| "evaluateCellRef ops n sheet address visited =
     (if address \<in> visited
      then Some (Inl (Error (Some ''CYCLE'') ''Circular reference detected''))
      else
        (case sheet_cells sheet address of
           None \<Rightarrow> Some (Inr (VNull, insert address visited))
         | Some (LiteralCell v) \<Rightarrow> Some (Inr (v, insert address visited))
         | Some (FormulaCell src ast) \<Rightarrow>
             (case n of
                0 \<Rightarrow> None
              | Suc m \<Rightarrow>
                  (case evaluateAst ops m sheet ast (insert address visited) of
                     None \<Rightarrow> None
                   | Some (Inl e) \<Rightarrow> Some (Inl e)
                   | Some (Inr (result, visited')) \<Rightarrow>
                       (case ensureScalar result ''Reference to cell evaluates to range'' of
                          Inl e \<Rightarrow> Some (Inl e)
                        | Inr v \<Rightarrow> Some (Inr (v, visited' - {address})))))
         | Some (ErrorCell message code) \<Rightarrow> Some (Inr (VNull, insert address visited))))"

| "evaluateRefs ops n sheet [] visited = Some (Inr ([], visited))"
| "evaluateRefs ops n sheet (addr # addrs) visited =
     (case evaluateCellRef ops n sheet addr visited of
        None \<Rightarrow> None
      | Some (Inl e) \<Rightarrow> Some (Inl e)
      | Some (Inr (v, visited')) \<Rightarrow>
          (case evaluateRefs ops n sheet addrs visited' of
             None \<Rightarrow> None
           | Some (Inl e) \<Rightarrow> Some (Inl e)
           | Some (Inr (vs, visited'')) \<Rightarrow> Some (Inr (v # vs, visited''))))"

| "evaluateArgs ops n sheet [] visited = Some (Inr ([], visited))"
| "evaluateArgs ops n sheet (arg # args) visited =
     (case evaluateAst ops n sheet arg visited of
        None \<Rightarrow> None
      | Some (Inl e) \<Rightarrow> Some (Inl e)
      | Some (Inr (v, visited')) \<Rightarrow>
          (case evaluateArgs ops n sheet args visited' of
             None \<Rightarrow> None
           | Some (Inl e) \<Rightarrow> Some (Inl e)
           | Some (Inr (vs, visited'')) \<Rightarrow> Some (Inr (v # vs, visited''))))"

| "evaluateFunction ops n sheet name args visited =
     (let upperName = toUpperCase name;
          aggregate = (\<lambda>f. case evaluateArgs ops n sheet args visited of
                             None \<Rightarrow> None
                           | Some (Inl e) \<Rightarrow> Some (Inl e)
                           | Some (Inr (vals, visited')) \<Rightarrow> Some (Inr (f vals, visited')))
      in if upperName = ''SUM'' then aggregate (SUM_of ops)
         else if upperName = ''AVG'' \<or> upperName = ''AVERAGE'' then aggregate (AVG_of ops)
         else if upperName = ''MIN'' then aggregate MIN_of
         else if upperName = ''MAX'' then aggregate MAX_of
         else if upperName = ''COUNT'' then aggregate COUNT_of
         else if upperName = ''IF'' then
           (case args of
              [conditionArg, thenArg, elseArg] \<Rightarrow>
                (case evaluateAst ops n sheet conditionArg visited of
                   None \<Rightarrow> None
                 | Some (Inl e) \<Rightarrow> Some (Inl e)
                 | Some (Inr (c, visited')) \<Rightarrow>
                     (case ensureScalar c ''IF condition'' of
                        Inl e \<Rightarrow> Some (Inl e)
                      | Inr condition \<Rightarrow>
                          (let truthy = (js_truthy condition
                                           \<and> \<not> value_equal condition (VNumber (Num 0))
                                           \<and> \<not> value_equal condition (VString []))
                           in case evaluateAst ops n sheet (if truthy then thenArg else elseArg) visited' of
                                None \<Rightarrow> None
                              | Some (Inl e) \<Rightarrow> Some (Inl e)
                              | Some (Inr (b, visited'')) \<Rightarrow>
                                  (case ensureScalar b ''IF branch result'' of
                                     Inl e \<Rightarrow> Some (Inl e)
                                   | Inr v \<Rightarrow> Some (Inr (v, visited''))))))
            | _ \<Rightarrow> Some (Inl (Error None ''IF requires exactly 3 arguments'')))
         else Some (Inl (Error None (''Unknown function: '' @ name))))"

| "evaluateBinaryOp ops n sheet op left right visited =
     (case evaluateAst ops n sheet left visited of
        None \<Rightarrow> None
      | Some (Inl e) \<Rightarrow> Some (Inl e)
      | Some (Inr (leftValue, visited')) \<Rightarrow>
          (case evaluateAst ops n sheet right visited' of
             None \<Rightarrow> None
           | Some (Inl e) \<Rightarrow> Some (Inl e)
           | Some (Inr (rightValue, visited'')) \<Rightarrow>
               (case binary_result ops op leftValue rightValue of
                  Inl e \<Rightarrow> Some (Inl e)
                | Inr v \<Rightarrow> Some (Inr (v, visited'')))))"

  by pat_completeness auto

termination
  by (relation "measures
       [\<lambda>x. case x of
              Inl (Inl (ops, n, sheet, ast, visited)) \<Rightarrow> n
            | Inl (Inr (Inl (ops, n, sheet, address, visited))) \<Rightarrow> n
            | Inl (Inr (Inr (ops, n, sheet, addrs, visited))) \<Rightarrow> n
            | Inr (Inl (ops, n, sheet, args, visited)) \<Rightarrow> n
            | Inr (Inr (Inl (ops, n, sheet, name, args, visited))) \<Rightarrow> n
            | Inr (Inr (Inr (ops, n, sheet, op, left, right, visited))) \<Rightarrow> n,
        \<lambda>x. case x of
              Inl (Inl (ops, n, sheet, ast, visited)) \<Rightarrow> 3 * size ast + 3
            | Inl (Inr (Inl (ops, n, sheet, address, visited))) \<Rightarrow> 0
            | Inl (Inr (Inr (ops, n, sheet, addrs, visited))) \<Rightarrow> 1
            | Inr (Inl (ops, n, sheet, args, visited)) \<Rightarrow> 3 * size_list size args + 4
            | Inr (Inr (Inl (ops, n, sheet, name, args, visited))) \<Rightarrow> 3 * size_list size args + 5
            | Inr (Inr (Inr (ops, n, sheet, op, left, right, visited))) \<Rightarrow> 3 * (size left + size right) + 4,
        \<lambda>x. case x of
              Inl (Inr (Inr (ops, n, sheet, addrs, visited))) \<Rightarrow> length addrs
            | _ \<Rightarrow> 0]")
     auto

declare evaluateCellRef.simps [simp del] evaluateFunction.simps [simp del]
  evaluateBinaryOp.simps [simp del]

definition evaluateCell :: "Arithmetic \<Rightarrow> nat \<Rightarrow> Sheet \<Rightarrow> CellAddress \<Rightarrow> EvalResult option" where
  "evaluateCell ops n sheet address =
     (case sheet_cells sheet address of
        None \<Rightarrow> Some \<lparr>result_value = VNull, result_error = None\<rparr>
      | Some (LiteralCell v) \<Rightarrow> Some \<lparr>result_value = v, result_error = None\<rparr>
      | Some (ErrorCell message code) \<Rightarrow>
          Some \<lparr>result_value = VNull, result_error = Some (code_text code, message)\<rparr>
      | Some (FormulaCell src ast) \<Rightarrow>
          (case (case evaluateAst ops n sheet ast {address} of
                   None \<Rightarrow> None
                 | Some (Inl e) \<Rightarrow> Some (Inl e)
                 | Some (Inr (Array vs, visited')) \<Rightarrow>
                     Some (Inl (Error None ''Bare range cannot be a cell value''))
                 | Some (Inr (Scalar v, visited')) \<Rightarrow> Some (Inr v)) of
             None \<Rightarrow> None
           | Some (Inr v) \<Rightarrow> Some \<lparr>result_value = v, result_error = None\<rparr>
           | Some (Inl (Error errCode errMessage)) \<Rightarrow>
               Some \<lparr>result_value = VNull,
                     result_error =
                       Some (case errCode of None \<Rightarrow> ''EVAL''
                                           | Some c \<Rightarrow> if c = [] then ''EVAL'' else c,
                             errMessage)\<rparr>))"

subsection \<open>Notions and sheets used in the results\<close>




text \<open>
  The truthiness of an \<open>IF\<close> condition in the words of the specification: not null,
  not 0, not the empty string.
\<close>

definition claimed_truthy :: "CellValue \<Rightarrow> bool" where
  "claimed_truthy v = (v \<noteq> VNull \<and> v \<noteq> VNumber (Num 0) \<and> v \<noteq> VString [])"

definition empty_sheet :: Sheet where
  "empty_sheet = \<lparr>sheet_cells = Map.empty\<rparr>"

text \<open>
  A diamond: \<open>A1 = B1 + C1\<close>, \<open>B1 = D1\<close>, \<open>C1 = D1\<close>, and \<open>D1\<close> as given (absent
  when \<open>None\<close>).
\<close>

definition diamond_sheet :: "Cell option \<Rightarrow> Sheet" where
  "diamond_sheet d = \<lparr>sheet_cells = (map_of
     [(''A1'', FormulaCell ''=B1+C1''
                 (BinaryOp ''+'' (CellRef ''B1'' False False) (CellRef ''C1'' False False))),
      (''B1'', FormulaCell ''=D1'' (CellRef ''D1'' False False)),
      (''C1'', FormulaCell ''=D1'' (CellRef ''D1'' False False))])(''D1'' := d)\<rparr>"

text \<open>
  \<open>A1 = 1/0\<close>; and a column with an error cell summed by \<open>B1\<close> and read twice by
  \<open>C1\<close>.
\<close>

definition division_sheet :: Sheet where
  "division_sheet = \<lparr>sheet_cells = map_of
     [(''A1'', FormulaCell ''=1/0'' (BinaryOp ''/'' (NumberLiteral (Num 1)) (NumberLiteral (Num 0))))]\<rparr>"

definition error_column_sheet :: Sheet where
  "error_column_sheet = \<lparr>sheet_cells = map_of
     [(''A1'', LiteralCell (VNumber (Num 1))),
      (''A2'', ErrorCell ''Invalid formula: =('' PARSE),
      (''A3'', LiteralCell (VNumber (Num 2))),
      (''B1'', FormulaCell ''=SUM(A1:A3)'' (FunctionCall ''SUM'' [RangeRef ''A1'' ''A3''])),
      (''C1'', FormulaCell ''=A2=A2''
                 (BinaryOp ''='' (CellRef ''A2'' False False) (CellRef ''A2'' False False)))]\<rparr>"






section \<open>Properties of the address codec\<close>

lemma isUpper_char_of:
  "0 \<le> k \<Longrightarrow> k < 26 \<Longrightarrow> isUpper (char_of (k + 65 :: int))"
  by (simp add: isUpper_def)

lemma isDigit_not_isUpper: "isDigit ch \<Longrightarrow> \<not> isUpper ch"
  by (simp add: isDigit_def isUpper_def)

lemma dollar_not_isUpper: "\<not> isUpper (CHR ''$'')"
  by (simp add: isUpper_def)

lemma colToLetter_loop_upper:
  "list_all isUpper letter \<Longrightarrow> list_all isUpper (colToLetter_loop c letter)"
proof (induction c letter rule: colToLetter_loop.induct)
  case (1 c letter)
  show ?case
  proof (cases "c \<ge> 0")
    case True
    have "isUpper (char_of (c mod 26 + 65))"
      by (rule isUpper_char_of) simp_all
    with 1 True show ?thesis by (subst colToLetter_loop.simps) simp
  next
    case False
    with 1 show ?thesis by (subst colToLetter_loop.simps) simp
  qed
qed

lemma colToLetter_loop_nonempty:
  "c \<ge> 0 \<or> letter \<noteq> [] \<Longrightarrow> colToLetter_loop c letter \<noteq> []"
proof (induction c letter rule: colToLetter_loop.induct)
  case (1 c letter)
  then show ?case by (subst colToLetter_loop.simps) auto
qed

lemma letterToCol_loop:
  "c \<ge> 0 \<Longrightarrow>
   fold (\<lambda>ch c. c * 26 + (of_char ch - 65 + 1)) (colToLetter_loop c letter) (0::int) =
   fold (\<lambda>ch c. c * 26 + (of_char ch - 65 + 1)) letter (c + 1)"
proof (induction c letter rule: colToLetter_loop.induct)
  case (1 c letter)
  let ?ch = "char_of (c mod 26 + 65) :: char"
  have code: "(of_char ?ch :: int) = c mod 26 + 65"
  proof -
    have "0 \<le> c mod 26" "c mod 26 < 26" by simp_all
    then show ?thesis by (simp add: of_char_of)
  qed
  show ?case
  proof (cases "c div 26 - 1 \<ge> 0")
    case True
    have "colToLetter_loop c letter = colToLetter_loop (c div 26 - 1) (?ch # letter)"
      using "1.prems" by (subst colToLetter_loop.simps) simp
    moreover have "(c div 26 - 1 + 1) * 26 + (c mod 26 + 65 - 65 + 1) = c + 1"
      by simp
    ultimately show ?thesis using "1.IH"[OF "1.prems" True] code by simp
  next
    case False
    then have small: "c div 26 = 0" using "1.prems"
      by (smt (verit) pos_imp_zdiv_nonneg_iff)
    have "colToLetter_loop c letter = ?ch # letter"
      using "1.prems" False
      by (subst colToLetter_loop.simps, subst colToLetter_loop.simps) simp
    moreover have "c mod 26 = c" using small "1.prems"
      by (metis add.left_neutral mult_zero_right mult_div_mod_eq)
    ultimately show ?thesis using code by (simp add: add.commute)
  qed
qed

lemma letterToCol_colToLetter: "c \<ge> 0 \<Longrightarrow> letterToCol (colToLetter c) = c"
  unfolding letterToCol_def colToLetter_def using letterToCol_loop[of c "[]"] by simp

lemma of_char_digit:
  "k < 10 \<Longrightarrow> (of_char (char_of (48 + k :: nat) :: char) :: int) = 48 + int k"
proof -
  assume k: "k < 10"
  have "(of_char (char_of (48 + k) :: char) :: nat) = (48 + k) mod 256"
    by (rule of_char_of)
  with k have "(of_char (char_of (48 + k) :: char) :: nat) = 48 + k" by simp
  then have "int (of_char (char_of (48 + k) :: char)) = int (48 + k)" by (rule arg_cong)
  then show ?thesis by (simp only: of_nat_of_char)
qed

lemma digits_of_isDigit: "list_all isDigit (digits_of n)"
proof (induction n rule: digits_of.induct)
  case (1 n)
  have d: "k < 10 \<Longrightarrow> isDigit (char_of (48 + k))" for k :: nat
    by (simp add: isDigit_def of_char_digit)
  show ?case
  proof (cases "n < 10")
    case True
    then show ?thesis by (subst digits_of.simps) (simp add: d)
  next
    case False
    then show ?thesis using 1 by (subst digits_of.simps) (simp add: d)
  qed
qed

lemma digits_of_nonempty: "digits_of n \<noteq> []"
  by (subst digits_of.simps) simp

lemma parseInt_digits_of: "parseInt (digits_of n) = int n"
proof (induction n rule: digits_of.induct)
  case (1 n)
  have d: "k < 10 \<Longrightarrow> (of_char (char_of (48 + k) :: char) :: int) = 48 + int k" for k :: nat
    by (simp add: of_char_digit)
  show ?case
  proof (cases "n < 10")
    case True
    then show ?thesis by (subst digits_of.simps) (simp add: parseInt_def d)
  next
    case False
    have "n mod 10 < 10" by simp
    from d[OF this] have "(of_char (char_of (48 + n mod 10) :: char) :: int) = 48 + int (n mod 10)" .
    moreover have "int (n div 10) * 10 + int (n mod 10) = int n"
      by (metis of_nat_add of_nat_mult of_nat_numeral div_mult_mod_eq)
    ultimately show ?thesis using 1 False
      by (subst digits_of.simps) (simp add: parseInt_def)
  qed
qed


lemma takeWhile_letters_digits:
  assumes "list_all isUpper ls" "list_all isDigit ds"
  shows "takeWhile isUpper (ls @ ds) = ls" "dropWhile isUpper (ls @ ds) = ds"
proof -
  have nd: "takeWhile isUpper ds = []" "dropWhile isUpper ds = ds"
    using assms(2) by (cases ds; simp add: isDigit_not_isUpper)+
  have all: "\<And>x. x \<in> set ls \<Longrightarrow> isUpper x"
    using assms(1) by (simp add: list_all_iff)
  show "takeWhile isUpper (ls @ ds) = ls"
    using all nd by (simp add: takeWhile_append2)
  show "dropWhile isUpper (ls @ ds) = ds"
    using all nd by (simp add: dropWhile_append2)
qed

lemma toCellAddress_letters_digits:
  assumes "list_all isUpper ls" "ls \<noteq> []" "list_all isDigit ds" "ds \<noteq> []"
  shows "toCellAddress (ls @ ds) = Inr (ls @ ds)"
  using assms by (simp add: toCellAddress_def takeWhile_letters_digits)

lemma match_address_letters_digits:
  assumes "list_all isUpper ls" "ls \<noteq> []" "list_all isDigit ds" "ds \<noteq> []"
  shows "match_address (ls @ ds) = Some ([], ls, [], ds)"
proof -
  obtain l ls' where ls: "ls = l # ls'" using assms(2) by (cases ls) auto
  obtain d ds' where ds: "ds = d # ds'" using assms(4) by (cases ds) auto
  have l: "l \<noteq> CHR ''$''" using assms(1) ls dollar_not_isUpper by auto
  have d: "d \<noteq> CHR ''$''" using assms(3) ds by (auto simp: isDigit_def)
  have first: "(case ls @ ds of [] \<Rightarrow> ([], ls @ ds)
                | ch # r \<Rightarrow> if ch = CHR ''$'' then (''$'', r) else ([], ls @ ds)) = ([], ls @ ds)"
    using l ls by simp
  have second: "(case ds of [] \<Rightarrow> ([], ds)
                | ch # r \<Rightarrow> if ch = CHR ''$'' then (''$'', r) else ([], ds)) = ([], ds)"
    using d ds by simp
  show ?thesis
    unfolding match_address_def first
    using assms by (simp add: takeWhile_letters_digits second)
qed

lemma formatAddress_plain:
  assumes "c \<ge> 0" "r \<ge> -1"
  shows "formatAddress c r False False = Inr (colToLetter c @ digits_of (nat (r + 1)))"
    and "parseAddress (colToLetter c @ digits_of (nat (r + 1))) =
           Inr \<lparr>addr_col = c, addr_row = r, absoluteCol = False, absoluteRow = False\<rparr>"
proof -
  have up: "list_all isUpper (colToLetter c)" "colToLetter c \<noteq> []"
    using assms(1) by (simp_all add: colToLetter_def colToLetter_loop_upper colToLetter_loop_nonempty)
  have dg: "list_all isDigit (digits_of (nat (r + 1)))" "digits_of (nat (r + 1)) \<noteq> []"
    by (simp_all add: digits_of_isDigit digits_of_nonempty)
  show "formatAddress c r False False = Inr (colToLetter c @ digits_of (nat (r + 1)))"
    using assms(2) by (simp add: formatAddress_def String_int_def toCellAddress_letters_digits up dg)
  show "parseAddress (colToLetter c @ digits_of (nat (r + 1))) =
           Inr \<lparr>addr_col = c, addr_row = r, absoluteCol = False, absoluteRow = False\<rparr>"
    using assms
    by (simp add: parseAddress_def match_address_letters_digits up dg
        letterToCol_colToLetter parseInt_digits_of)
qed

text \<open>
  Claim C4. For all integers \<open>col\<close> and \<open>row\<close> with \<open>0 \<le> col < 1000\<close> and
  \<open>0 \<le> row < 1000\<close>, \<open>formatAddress(col, row)\<close> returns an address, and
  \<open>parseAddress\<close> of that address returns exactly \<open>col\<close> and \<open>row\<close> with both
  fixed flags false. (Lemma \<open>formatAddress_plain\<close> shows the same for every
  \<open>col \<ge> 0\<close>, \<open>row \<ge> -1\<close> of the exact indices of the model.)
\<close>

theorem address_round_trip:
  assumes "0 \<le> c" "c < 1000" "0 \<le> r" "r < 1000"
  shows "\<exists>a. formatAddress c r False False = Inr a \<and>
             parseAddress a =
               Inr \<lparr>addr_col = c, addr_row = r, absoluteCol = False, absoluteRow = False\<rparr>"
  using assms formatAddress_plain[of c r] by simp

theorem address_round_trip_witness:
  "(0::int) \<le> 27 \<and> (27::int) < 1000 \<and> (0::int) \<le> 41 \<and> (41::int) < 1000 \<and>
   (\<exists>a. formatAddress 27 41 False False = Inr a \<and>
        parseAddress a =
          Inr \<lparr>addr_col = 27, addr_row = 41, absoluteCol = False, absoluteRow = False\<rparr>)"
  using address_round_trip[of 27 41] by simp

lemma formatAddress_AB42: "formatAddress 27 41 False False = Inr ''AB42''"
  by code_simp

text \<open>
  Claim C5 says that \<open>formatAddress\<close> succeeds for every combination of fixed flags and
  that \<open>parseAddress\<close> recovers the flags. In the code \<open>formatAddress\<close> passes the
  text it built, \<open>$\<close> markers included, to \<open>toCellAddress\<close>, whose pattern
  \<open>/^[A-Z]+[0-9]+$/\<close> admits no \<open>$\<close>: with a fixed flag set the call throws.
  The theorem evaluates \<open>formatAddress(0, 0, fixedCol, fixedRow)\<close> for the three
  combinations with a flag set. Lemma \<open>formatAddress_fixed_fails\<close> below shows the
  failure for every column and row; \<open>parseAddress_fixed\<close> shows that the sibling
  \<open>parseAddress\<close> does accept the marked text.
\<close>

theorem formatAddress_fixed_throws:
  "formatAddress 0 0 True False = Inl (Error None ''Invalid cell address format: $A1'') \<and>
   formatAddress 0 0 False True = Inl (Error None ''Invalid cell address format: A$1'') \<and>
   formatAddress 0 0 True True = Inl (Error None ''Invalid cell address format: $A$1'')"
  by code_simp

lemma parseAddress_fixed: "parseAddress ''$A$1'' = Inr \<lparr>addr_col = 0, addr_row = 0, absoluteCol = True, absoluteRow = True\<rparr>"
  by code_simp


lemma formatAddress_fixed_fails:
  assumes "absCol \<or> absRow"
  shows "\<exists>e. formatAddress c r absCol absRow = Inl e"
proof (cases absCol)
  case True
  then show ?thesis
    by (simp add: formatAddress_def toCellAddress_def dollar_not_isUpper)
next
  case False
  with assms have absRow by simp
  have up: "\<And>x. x \<in> set (colToLetter c) \<Longrightarrow> isUpper x"
    using colToLetter_loop_upper[of "[]" c] by (simp add: colToLetter_def list_all_iff)
  have "dropWhile isUpper (colToLetter c @ CHR ''$'' # String_int (r + 1)) =
          CHR ''$'' # String_int (r + 1)"
    using up by (simp add: dropWhile_append2 dollar_not_isUpper)
  moreover have "\<not> isDigit (CHR ''$'')" by (simp add: isDigit_def)
  ultimately show ?thesis using False \<open>absRow\<close>
    by (simp add: formatAddress_def toCellAddress_def)
qed

text \<open>
  Claim C9, amended. Let \<open>addr\<close> parse to column \<open>c\<close> and row \<open>r\<close> with
  \<open>0 \<le> c, r < MAX_SAFE_INTEGER\<close> (so that every index the code computes is an
  exact double), let neither axis be marked fixed, and let the deleted column index,
  when given, be non-negative. Then \<open>adjustReference\<close> returns an address whose column is \<open>c\<close>,
  plus one when an inserted column index is at or before \<open>c\<close>, then minus one when a
  deleted column index is strictly before the column reached so far; likewise for the
  row. A deletion point equal to the index does not shift it.
\<close>

theorem adjustReference_relative:
  fixes insertedAt deletedAt :: Position
  assumes parse: "parseAddress addr = Inr p"
    and nonneg: "0 \<le> addr_col p" "0 \<le> addr_row p"
    and exact: "addr_col p < MAX_SAFE_INTEGER" "addr_row p < MAX_SAFE_INTEGER"
    and del: "\<forall>d. pos_col deletedAt = Some d \<longrightarrow> 0 \<le> d"
  defines "c1 \<equiv> (if \<exists>i. pos_col insertedAt = Some i \<and> i \<le> addr_col p
                  then addr_col p + 1 else addr_col p)"
    and "r1 \<equiv> (if \<exists>i. pos_row insertedAt = Some i \<and> i \<le> addr_row p
                  then addr_row p + 1 else addr_row p)"
  defines "c2 \<equiv> (if \<exists>d. pos_col deletedAt = Some d \<and> d < c1 then c1 - 1 else c1)"
    and "r2 \<equiv> (if \<exists>d. pos_row deletedAt = Some d \<and> d < r1 then r1 - 1 else r1)"
  shows "\<exists>a. adjustReference addr insertedAt deletedAt (AbsFlags False False) = Inr a \<and>
             parseAddress a =
               Inr \<lparr>addr_col = c2, addr_row = r2, absoluteCol = False, absoluteRow = False\<rparr>"
proof -
  have c1: "c1 \<ge> 0" and r1: "r1 \<ge> 0" using nonneg by (simp_all add: c1_def r1_def)
  have c2: "c2 \<ge> 0" using c1 del by (auto simp: c2_def)
  have r2: "r2 \<ge> -1" using r1 by (auto simp: r2_def)
  have "adjustReference addr insertedAt deletedAt (AbsFlags False False) =
          formatAddress c2 r2 False False"
    unfolding adjustReference_def parse c1_def r1_def c2_def r2_def
    by (cases "pos_col insertedAt"; cases "pos_row insertedAt";
        cases "pos_col deletedAt"; cases "pos_row deletedAt") (simp_all add: Let_def)
  then show ?thesis using formatAddress_plain[OF c2 r2] by simp
qed

theorem adjustReference_relative_witness:
  "parseAddress ''C5'' =
     Inr \<lparr>addr_col = 2, addr_row = 4, absoluteCol = False, absoluteRow = False\<rparr> \<and>
   (\<exists>a. adjustReference ''C5'' (Position None (Some 2)) (Position (Some 0) None)
            (AbsFlags False False) = Inr a \<and>
        parseAddress a =
          Inr \<lparr>addr_col = 3, addr_row = 3, absoluteCol = False, absoluteRow = False\<rparr>)"
proof -
  have p: "parseAddress ''C5'' =
     Inr \<lparr>addr_col = 2, addr_row = 4, absoluteCol = False, absoluteRow = False\<rparr>"
    by code_simp
  show ?thesis
    using adjustReference_relative[OF p, of "Position (Some 0) None" "Position None (Some 2)"]
    by (simp add: p MAX_SAFE_INTEGER_def)
qed

text \<open>
  Claim C9 as stated fails: deleting column index 1 leaves a reference to column index 1
  (\<open>B1\<close>) where it is, and with the column marked fixed the call throws.
\<close>

theorem adjustReference_counterexample:
  "parseAddress ''B1'' =
     Inr \<lparr>addr_col = 1, addr_row = 0, absoluteCol = False, absoluteRow = False\<rparr> \<and>
   adjustReference ''B1'' (Position None None) (Position None (Some 1)) (AbsFlags False False)
     = Inr ''B1'' \<and>
   adjustReference ''B1'' (Position None None) (Position None None) (AbsFlags True False)
     = Inl (Error None ''Invalid cell address format: $B1'')"
  by code_simp

section \<open>Properties of the dependency graph\<close>

lemma set_Set_add: "set (Set_add x xs) = insert x (set xs)"
  by (auto simp: Set_add_def)

lemma getDependencies_add:
  "set (getDependencies (addDependency from to g) a) =
     (if a = from then insert to (set (getDependencies g a)) else set (getDependencies g a))"
  by (auto simp: getDependencies_def addDependency_def Let_def update_conv' set_Set_add
           split: option.splits)

lemma getDependents_add:
  "set (getDependents (addDependency from to g) b) =
     (if b = to then insert from (set (getDependents g b)) else set (getDependents g b))"
  by (auto simp: getDependents_def addDependency_def Let_def update_conv' set_Set_add
           split: option.splits)

lemma inverse_maps_add: "inverse_maps g \<Longrightarrow> inverse_maps (addDependency from to g)"
  unfolding inverse_maps_def getDependencies_add getDependents_add by auto

lemma fold_delete_lookup:
  "map_of (fold (\<lambda>dep dpts. case map_of dpts dep of
                                 None \<Rightarrow> dpts
                               | Some ds \<Rightarrow> AList.update dep (Set_delete cell ds) dpts) deps dpts) b =
     (case map_of dpts b of None \<Rightarrow> None
      | Some ds \<Rightarrow> Some (if b \<in> set deps then Set_delete cell ds else ds))"
proof (induction deps arbitrary: dpts)
  case Nil
  then show ?case by (simp split: option.splits)
next
  case (Cons d deps)
  show ?case
    by (simp add: Cons.IH update_conv' Set_delete_def split: option.splits)
qed

lemma getDependencies_remove:
  "set (getDependencies (removeDependencies cell g) a) =
     (if a = cell then {} else set (getDependencies g a))"
  by (auto simp: getDependencies_def removeDependencies_def delete_conv' split: option.splits)

lemma getDependents_remove:
  "set (getDependents (removeDependencies cell g) b) =
     (if b \<in> set (getDependencies g cell) then set (getDependents g b) - {cell}
      else set (getDependents g b))"
  by (auto simp: getDependents_def getDependencies_def removeDependencies_def fold_delete_lookup
        Set_delete_def split: option.splits)

lemma inverse_maps_remove: "inverse_maps g \<Longrightarrow> inverse_maps (removeDependencies cell g)"
  unfolding inverse_maps_def getDependencies_remove getDependents_remove by auto

lemma inverse_maps_new: "inverse_maps new_DependencyGraph"
  by (simp add: inverse_maps_def new_DependencyGraph_def getDependencies_def getDependents_def)

lemma inverse_maps_foldl: "inverse_maps g \<Longrightarrow> inverse_maps (foldl call g cs)"
proof (induction cs arbitrary: g)
  case Nil
  then show ?case by simp
next
  case (Cons c cs)
  then show ?case by (cases c) (simp_all add: inverse_maps_add inverse_maps_remove)
qed

text \<open>
  Claim C8. Starting from an empty graph, after any finite sequence of
  \<open>addDependency\<close> and \<open>removeDependencies\<close> calls, \<open>b\<close> is a member of the
  dependencies of \<open>a\<close> if and only if \<open>a\<close> is a member of the dependents of \<open>b\<close>
  (a missing key reads as the empty set, as \<open>getDependencies\<close> and
  \<open>getDependents\<close> do).
\<close>

theorem graph_maps_inverse:
  "b \<in> set (getDependencies (after_calls cs) a) \<longleftrightarrow> a \<in> set (getDependents (after_calls cs) b)"
  using inverse_maps_foldl[OF inverse_maps_new, of cs]
  by (simp add: after_calls_def inverse_maps_def)

lemma post_order_append:
  "post_order g V (xs @ ys) \<longleftrightarrow> post_order g V xs \<and> post_order g (V \<union> set xs) ys"
  by (induction xs arbitrary: V) auto

lemma post_order_drop:
  assumes "post_order g (insert c V) xs" "\<And>x. x \<in> set xs \<Longrightarrow> (c, x) \<in> (dependsOn g)\<^sup>+"
  shows "post_order g V xs"
  using assms
proof (induction xs arbitrary: V)
  case Nil
  then show ?case by simp
next
  case (Cons x xs)
  have cx: "(c, x) \<in> (dependsOn g)\<^sup>+" using Cons.prems(2) by simp
  have head: "d \<in> V \<or> (x, x) \<in> (dependsOn g)\<^sup>+" if d: "d \<in> set (getDependencies g x)" for d
  proof (cases "d = c")
    case True
    with d have "(x, c) \<in> dependsOn g" by (simp add: dependsOn_def)
    with cx show ?thesis by (meson trancl_into_trancl2)
  next
    case False
    with Cons.prems(1) d show ?thesis by auto
  qed
  have "post_order g (insert c (insert x V)) xs"
    using Cons.prems(1) by (simp add: insert_commute)
  then have "post_order g (insert x V) xs"
    using Cons.IH Cons.prems(2) by simp
  with head show ?case by auto
qed

lemma visit_all_post:
  assumes step: "\<And>c st st'. visit n g c st = Some st' \<Longrightarrow> visit_post g {c} st st'"
  shows "visit_all n g cs st = Some st' \<Longrightarrow> visit_post g (set cs) st st'"
proof (induction cs arbitrary: st)
  case Nil
  then show ?case by (simp add: visit_post_def)
next
  case (Cons c cs)
  from Cons.prems obtain st1 where v1: "visit n g c st = Some st1"
    and v2: "visit_all n g cs st1 = Some st'"
    by (auto split: option.splits)
  from step[OF v1] obtain new1 where n1: "snd st1 = snd st @ new1" "fst st1 = fst st \<union> set new1"
    "distinct new1" "set new1 \<inter> fst st = {}" "set new1 \<subseteq> (dependsOn g)\<^sup>* `` {c}" "c \<in> fst st1"
    "post_order g (fst st) new1"
    by (auto simp: visit_post_def)
  from Cons.IH[OF v2] obtain new2 where n2: "snd st' = snd st1 @ new2" "fst st' = fst st1 \<union> set new2"
    "distinct new2" "set new2 \<inter> fst st1 = {}" "set new2 \<subseteq> (dependsOn g)\<^sup>* `` set cs"
    "set cs \<subseteq> fst st'" "post_order g (fst st1) new2"
    by (auto simp: visit_post_def)
  have "snd st' = snd st @ (new1 @ new2)" using n1 n2 by simp
  moreover have "fst st' = fst st \<union> set (new1 @ new2)" using n1 n2 by auto
  moreover have "distinct (new1 @ new2)" using n1 n2 by auto
  moreover have "set (new1 @ new2) \<inter> fst st = {}" using n1 n2 by auto
  moreover have "set (new1 @ new2) \<subseteq> (dependsOn g)\<^sup>* `` set (c # cs)" using n1(5) n2(5) by auto
  moreover have "set (c # cs) \<subseteq> fst st'" using n1 n2 by auto
  moreover have "post_order g (fst st) (new1 @ new2)"
    using n1(7) n2(7) n1(2) by (simp add: post_order_append)
  ultimately show ?case unfolding visit_post_def by blast
qed

lemma visit_post_holds: "visit n g c st = Some st' \<Longrightarrow> visit_post g {c} st st'"
proof (induction n arbitrary: c st st')
  case 0
  then show ?case by (cases st) simp
next
  case (Suc n)
  obtain V R where st: "st = (V, R)" by (cases st)
  show ?case
  proof (cases "c \<in> V")
    case True
    with Suc.prems st have "st' = st" by simp
    with True st show ?thesis by (simp add: visit_post_def)
  next
    case False
    with Suc.prems st obtain V1 R1 where
      va: "visit_all n g (getDependencies g c) (insert c V, R) = Some (V1, R1)"
      and st': "st' = (V1, R1 @ [c])"
      by (auto split: option.splits)
    have "visit_post g (set (getDependencies g c)) (insert c V, R) (V1, R1)"
      using visit_all_post[OF Suc.IH va] .
    then obtain new1 where n1: "R1 = R @ new1" "V1 = insert c V \<union> set new1" "distinct new1"
      "set new1 \<inter> insert c V = {}" "set new1 \<subseteq> (dependsOn g)\<^sup>* `` set (getDependencies g c)"
      "set (getDependencies g c) \<subseteq> V1" "post_order g (insert c V) new1"
      by (auto simp: visit_post_def)
    have reach: "(c, x) \<in> (dependsOn g)\<^sup>+" if "x \<in> set new1" for x
    proof -
      from that n1(5) obtain d where d: "d \<in> set (getDependencies g c)" "(d, x) \<in> (dependsOn g)\<^sup>*"
        by auto
      from d(1) have "(c, d) \<in> dependsOn g" by (simp add: dependsOn_def)
      with d(2) show ?thesis by (meson rtrancl_into_trancl2)
    qed
    have po1: "post_order g V new1" using post_order_drop[OF n1(7) reach] .
    have last: "d \<in> V \<union> set new1 \<or> (c, c) \<in> (dependsOn g)\<^sup>+"
      if d: "d \<in> set (getDependencies g c)" for d
    proof (cases "d = c")
      case True
      with d have "(c, c) \<in> dependsOn g" by (simp add: dependsOn_def)
      then show ?thesis by blast
    next
      case False
      with d n1(6) n1(2) show ?thesis by auto
    qed
    have "snd st' = snd st @ (new1 @ [c])" using st st' n1 by simp
    moreover have "fst st' = fst st \<union> set (new1 @ [c])" using st st' n1 by auto
    moreover have "distinct (new1 @ [c])" using n1 by auto
    moreover have "set (new1 @ [c]) \<inter> fst st = {}" using n1 False st by auto
    moreover have "set (new1 @ [c]) \<subseteq> (dependsOn g)\<^sup>* `` {c}"
      using reach by (auto dest: trancl_into_rtrancl)
    moreover have "{c} \<subseteq> fst st'" using st' n1 by simp
    moreover have "post_order g (fst st) (new1 @ [c])"
      using po1 last st by (auto simp: post_order_append)
    ultimately show ?thesis unfolding visit_post_def by blast
  qed
qed


lemma visit_post_mono: "visit_post g S st st' \<Longrightarrow> fst st \<subseteq> fst st'"
  by (auto simp: visit_post_def)

lemma getDependencies_mentioned: "set (getDependencies g x) \<subseteq> mentioned g cells"
proof (cases "map_of (dependencies g) x")
  case None
  then show ?thesis by (simp add: getDependencies_def)
next
  case (Some ds)
  then have "(x, ds) \<in> set (dependencies g)" by (rule map_of_SomeD)
  then have "set ds \<subseteq> (\<Union>kv \<in> set (dependencies g). set (snd kv))" by force
  with Some show ?thesis by (auto simp: getDependencies_def mentioned_def)
qed

lemma finite_mentioned: "finite (mentioned g cells)"
  by (simp add: mentioned_def)

lemma visit_all_returns:
  assumes fin: "finite U"
    and step: "\<And>c st. c \<in> U \<Longrightarrow> card (U - fst st) < n \<Longrightarrow> \<exists>st'. visit n g c st = Some st'"
  shows "set cs \<subseteq> U \<Longrightarrow> card (U - fst st) < n \<Longrightarrow> \<exists>st'. visit_all n g cs st = Some st'"
proof (induction cs arbitrary: st)
  case Nil
  then show ?case by simp
next
  case (Cons c cs)
  from Cons.prems step[of c st] obtain st1 where v1: "visit n g c st = Some st1" by auto
  have "fst st \<subseteq> fst st1" using visit_post_holds[OF v1] by (rule visit_post_mono)
  then have "card (U - fst st1) \<le> card (U - fst st)"
    using fin by (intro card_mono) auto
  with Cons.prems have "card (U - fst st1) < n" by simp
  with Cons.IH[of st1] Cons.prems obtain st' where "visit_all n g cs st1 = Some st'" by auto
  with v1 show ?case by simp
qed

lemma visit_returns:
  assumes fin: "finite U" and closed: "\<And>x. set (getDependencies g x) \<subseteq> U"
  shows "c \<in> U \<Longrightarrow> card (U - fst st) < n \<Longrightarrow> \<exists>st'. visit n g c st = Some st'"
proof (induction n arbitrary: c st)
  case 0
  then show ?case by simp
next
  case (Suc n)
  obtain V R where st: "st = (V, R)" by (cases st)
  show ?case
  proof (cases "c \<in> V")
    case True
    with st show ?thesis by simp
  next
    case False
    with Suc.prems(1) have cUV: "c \<in> U - V" by simp
    have "finite (U - V)" using fin by simp
    from card.remove[OF this cUV] have "card (U - V) = Suc (card (U - V - {c}))" .
    moreover have "U - insert c V = U - V - {c}" by auto
    ultimately have "card (U - fst (insert c V, R)) < n" using Suc.prems(2) st by simp
    with visit_all_returns[OF fin Suc.IH, of "getDependencies g c" "(insert c V, R)"] closed
    obtain st1 where "visit_all n g (getDependencies g c) (insert c V, R) = Some st1" by blast
    with False st show ?thesis by (cases st1) simp
  qed
qed

lemma trancl_in_closed:
  assumes closed: "\<And>a b. a \<in> A \<Longrightarrow> (a, b) \<in> r \<Longrightarrow> b \<in> A"
  shows "(x, y) \<in> r\<^sup>+ \<Longrightarrow> x \<in> A \<Longrightarrow> (x, y) \<in> (Restr r A)\<^sup>+ \<and> y \<in> A"
proof (induction rule: trancl_induct)
  case (base y)
  then show ?case using closed by auto
next
  case (step y z)
  then have "(x, y) \<in> (Restr r A)\<^sup>+" "y \<in> A" by simp_all
  moreover from this step.hyps(2) closed have "z \<in> A" by blast
  ultimately show ?case using step.hyps(2) by (auto intro: trancl_into_trancl)
qed

lemma reachable_no_cycle:
  assumes "acyclic (Restr (dependsOn g) (reachable g cells))" "x \<in> reachable g cells"
  shows "(x, x) \<notin> (dependsOn g)\<^sup>+"
proof
  assume cyc: "(x, x) \<in> (dependsOn g)\<^sup>+"
  have "\<And>a b. a \<in> reachable g cells \<Longrightarrow> (a, b) \<in> dependsOn g \<Longrightarrow> b \<in> reachable g cells"
    unfolding reachable_def by (auto intro: rtrancl_into_rtrancl)
  from trancl_in_closed[of "reachable g cells" "dependsOn g", OF this cyc assms(2)]
  show False using assms(1) by (auto simp: acyclic_def)
qed

lemma post_order_index:
  assumes "post_order g V xs" "\<And>x. x \<in> set xs \<Longrightarrow> (x, x) \<notin> (dependsOn g)\<^sup>+" "i < length xs"
  shows "set (getDependencies g (xs ! i)) \<subseteq> V \<union> set (take i xs)"
  using assms
proof (induction xs arbitrary: V i)
  case Nil
  then show ?case by simp
next
  case (Cons x xs)
  show ?case
  proof (cases i)
    case 0
    with Cons.prems show ?thesis by auto
  next
    case (Suc j)
    with Cons.prems have "set (getDependencies g (xs ! j)) \<subseteq> insert x V \<union> set (take j xs)"
      by (intro Cons.IH) auto
    with Suc show ?thesis by auto
  qed
qed

text \<open>
  Claim C7. For every dependency graph and every list of requested cells,
  \<open>getEvaluationOrder\<close> returns (a recursion depth above the number of addresses
  the graph and the request mention is never reached, whether or not the graph has a
  cycle); each cell of the result appears exactly once; the result holds every
  requested cell and only cells reachable from them; and when \<open>dependsOn\<close>
  restricted to the reachable cells is acyclic, every cell of the result appears only
  after all of its \<open>dependsOn\<close> targets.
\<close>

theorem getEvaluationOrder_post_order:
  assumes fuel: "card (mentioned g cells) < n"
  shows "\<exists>order. getEvaluationOrder n g cells = Some order \<and>
           distinct order \<and> set cells \<subseteq> set order \<and> set order \<subseteq> reachable g cells \<and>
           (acyclic (Restr (dependsOn g) (reachable g cells)) \<longrightarrow>
              (\<forall>i < length order.
                 set (getDependencies g (order ! i)) \<subseteq> set (take i order)))"
proof -
  let ?U = "mentioned g cells"
  have "\<exists>st'. visit_all n g cells ({}, []) = Some st'"
  proof (rule visit_all_returns[OF finite_mentioned])
    show "\<exists>st'. visit n g c st = Some st'" if "c \<in> ?U" "card (?U - fst st) < n" for c st
      using visit_returns[OF finite_mentioned getDependencies_mentioned that] .
    show "set cells \<subseteq> ?U" by (auto simp: mentioned_def)
    show "card (?U - fst ({}, [])) < n" using fuel by simp
  qed
  then obtain V order where run: "visit_all n g cells ({}, []) = Some (V, order)" by auto
  have "visit_post g (set cells) ({}, []) (V, order)"
    using visit_all_post[OF visit_post_holds run] .
  then obtain new where new: "order = new" "V = set new" "distinct new"
    "set new \<subseteq> (dependsOn g)\<^sup>* `` set cells" "set cells \<subseteq> V" "post_order g {} new"
    unfolding visit_post_def fst_conv snd_conv by auto
  then have props: "V = set order" "distinct order" "set cells \<subseteq> set order"
    "set order \<subseteq> reachable g cells" "post_order g {} order"
    by (simp_all add: reachable_def)
  have idx: "set (getDependencies g (order ! i)) \<subseteq> set (take i order)"
    if acyc: "acyclic (Restr (dependsOn g) (reachable g cells))" and i: "i < length order" for i
  proof -
    have "(x, x) \<notin> (dependsOn g)\<^sup>+" if "x \<in> set order" for x
      using reachable_no_cycle[OF acyc] that props(4) by auto
    from post_order_index[OF props(5) this i] show ?thesis by simp
  qed
  have "getEvaluationOrder n g cells = Some order"
    using run by (simp add: getEvaluationOrder_def)
  moreover note props(2,3,4)
  moreover have "acyclic (Restr (dependsOn g) (reachable g cells)) \<longrightarrow>
              (\<forall>i < length order.
                 set (getDependencies g (order ! i)) \<subseteq> set (take i order))"
    using idx by simp
  ultimately show ?thesis by simp
qed

text \<open>
  The depth bound does not influence the result: a larger bound returns the same order.
\<close>

lemma visit_all_fuel_mono:
  assumes step: "\<And>c st st'. visit n g c st = Some st' \<Longrightarrow> visit m g c st = Some st'"
  shows "visit_all n g cs st = Some st' \<Longrightarrow> visit_all m g cs st = Some st'"
  by (induction cs arbitrary: st) (auto split: option.splits dest: step)

lemma visit_fuel_mono:
  "visit n g c st = Some st' \<Longrightarrow> n \<le> m \<Longrightarrow> visit m g c st = Some st'"
proof (induction n arbitrary: m c st st')
  case 0
  then show ?case by (cases st) simp
next
  case (Suc n)
  obtain V R where st: "st = (V, R)" by (cases st)
  from Suc.prems(2) obtain m' where m: "m = Suc m'" "n \<le> m'" by (cases m) auto
  show ?case
  proof (cases "c \<in> V")
    case True
    with Suc.prems(1) st have "st' = (V, R)" by simp
    with True st m show ?thesis by simp
  next
    case False
    with Suc.prems(1) st obtain V1 R1 where
      va: "visit_all n g (getDependencies g c) (insert c V, R) = Some (V1, R1)"
      and st': "st' = (V1, R1 @ [c])"
      by (auto split: option.splits)
    have "visit_all m' g (getDependencies g c) (insert c V, R) = Some (V1, R1)"
      using visit_all_fuel_mono[OF _ va] Suc.IH m(2) by blast
    with False st st' m show ?thesis by simp
  qed
qed

lemma getEvaluationOrder_fuel_mono:
  assumes "getEvaluationOrder n g cells = Some order" "n \<le> m"
  shows "getEvaluationOrder m g cells = Some order"
proof -
  from assms(1) obtain st' where run: "visit_all n g cells ({}, []) = Some st'" "snd st' = order"
    by (auto simp: getEvaluationOrder_def)
  have "visit_all m g cells ({}, []) = Some st'"
    using visit_all_fuel_mono[OF _ run(1)] visit_fuel_mono[OF _ assms(2)] by blast
  with run(2) show ?thesis by (simp add: getEvaluationOrder_def)
qed

lemma example_graph_eq:
  "example_graph = \<lparr>dependencies = [(''A1'', [''C1'', ''B1'']), (''C1'', [''B1''])],
                     dependents = [(''C1'', [''A1'']), (''B1'', [''A1'', ''C1''])]\<rparr>"
  by code_simp

lemma example_card: "card (mentioned example_graph [''A1'']) < 4"
proof -
  have "mentioned example_graph [''A1''] = {''A1'', ''B1'', ''C1''}"
    unfolding example_graph_eq by (auto simp: mentioned_def)
  then show ?thesis by simp
qed

lemma example_acyclic: "acyclic (Restr (dependsOn example_graph) (reachable example_graph [''A1'']))"
proof -
  let ?f = "\<lambda>x. if x = ''A1'' then 2 else if x = ''C1'' then 1 else (0::nat)"
  have "acyclic (dependsOn example_graph)"
  proof (rule acyclicI_order[where f = ?f])
    fix a b assume "(a, b) \<in> dependsOn example_graph"
    then show "?f b < ?f a"
      unfolding example_graph_eq
      by (auto simp: dependsOn_def getDependencies_def split: if_splits)
  qed
  then show ?thesis by (rule acyclic_subset) simp
qed

theorem getEvaluationOrder_post_order_witness:
  "card (mentioned example_graph [''A1'']) < 4 \<and>
   acyclic (Restr (dependsOn example_graph) (reachable example_graph [''A1''])) \<and>
   getEvaluationOrder 4 example_graph [''A1''] = Some [''B1'', ''C1'', ''A1''] \<and>
   (\<exists>order. getEvaluationOrder 4 example_graph [''A1''] = Some order \<and>
           distinct order \<and> set [''A1''] \<subseteq> set order \<and>
           set order \<subseteq> reachable example_graph [''A1''] \<and>
           (\<forall>i < length order.
              set (getDependencies example_graph (order ! i)) \<subseteq> set (take i order)))"
proof -
  have "getEvaluationOrder 4 example_graph [''A1''] = Some [''B1'', ''C1'', ''A1'']"
    by code_simp
  then show ?thesis
    using getEvaluationOrder_post_order[OF example_card] example_acyclic example_card
    by simp
qed

section \<open>Properties of the evaluator\<close>

lemmas num_defs = num_add_def num_sub_def num_mul_def num_div_def num_less_def num_le_def
  num_eq_def is_zero_def is_infinity_def

lemma half_not_integer: "\<not> is_integer (1 / 2)"
proof -
  have "\<lfloor>1 / 2 :: real\<rfloor> = 0" by simp
  then show ?thesis by (simp add: is_integer_def)
qed

lemma pow_negative_base_fraction: "Math_pow (Num (- 8)) (Num (1 / 2)) = NaN"
  by (simp add: Math_pow_def is_zero_def half_not_integer)

lemma range_A1_A3: "getCellsInRange ''A1'' ''A3'' = Inr [''A1'', ''A2'', ''A3'']"
  by code_simp

lemma exact_range_A1_A3: "exact_range ''A1'' ''A3''"
  by code_simp

lemma toUpperCase_if: "toUpperCase ''if'' = ''IF''"
  by code_simp



lemma evaluateCellRef_not_formula:
  assumes "address \<notin> visited"
  shows "sheet_cells sheet address = None \<Longrightarrow>
           evaluateCellRef ops n sheet address visited = Some (Inr (VNull, insert address visited))"
    and "sheet_cells sheet address = Some (LiteralCell v) \<Longrightarrow>
           evaluateCellRef ops n sheet address visited = Some (Inr (v, insert address visited))"
    and "sheet_cells sheet address = Some (ErrorCell message code) \<Longrightarrow>
           evaluateCellRef ops n sheet address visited = Some (Inr (VNull, insert address visited))"
  using assms by (simp_all add: evaluateCellRef.simps)















text \<open>
  Claim C1 says that a diamond dependency never yields a \<open>CYCLE\<close> error, whatever
  the shared cell is. \<open>evaluateCellRef\<close> adds the address to \<open>visited\<close> and removes
  it again only on the path through a formula cell; for a missing, a literal or an
  error cell it returns with the address still in \<open>visited\<close>. On the diamond
  \<open>A1 = B1 + C1\<close>, \<open>B1 = D1\<close>, \<open>C1 = D1\<close> the second path to \<open>D1\<close> therefore finds
  \<open>D1\<close> in \<open>visited\<close>: evaluating \<open>A1\<close> gives error code \<open>CYCLE\<close> when \<open>D1\<close> is
  absent, a literal or an error cell. Lemma \<open>diamond_over_formula\<close> below shows the
  path that does remove the address: with the formula \<open>=5\<close> in \<open>D1\<close> the result is
  the sum of 5 and 5.
\<close>

theorem diamond_false_cycle:
  "evaluateCell ops (Suc n) (diamond_sheet None) ''A1'' =
     Some \<lparr>result_value = VNull,
           result_error = Some (''CYCLE'', ''Circular reference detected'')\<rparr> \<and>
   evaluateCell ops (Suc n) (diamond_sheet (Some (LiteralCell v))) ''A1'' =
     Some \<lparr>result_value = VNull,
           result_error = Some (''CYCLE'', ''Circular reference detected'')\<rparr> \<and>
   evaluateCell ops (Suc n) (diamond_sheet (Some (ErrorCell message code))) ''A1'' =
     Some \<lparr>result_value = VNull,
           result_error = Some (''CYCLE'', ''Circular reference detected'')\<rparr>"
  by (simp add: evaluateCell_def diamond_sheet_def evaluateCellRef.simps evaluateBinaryOp.simps
       ensureScalar_def)

lemma diamond_over_formula:
  "evaluateCell ops (Suc (Suc n)) (diamond_sheet (Some (FormulaCell ''=5'' (NumberLiteral (Num 5))))) ''A1'' =
     Some \<lparr>result_value = VNumber (arith_add ops (Num 5) (Num 5)), result_error = None\<rparr>"
  by (simp add: evaluateCell_def diamond_sheet_def evaluateCellRef.simps evaluateBinaryOp.simps
       ensureScalar_def binary_result_def numeric_case_def)

lemma division_by_zero_throws:
  assumes "evaluateAst ops n sheet left visited = Some (Inr (Scalar (VNumber l), visited1))"
    and "evaluateAst ops n sheet right visited1 = Some (Inr (Scalar (VNumber r), visited2))"
    and "is_zero r"
  shows "evaluateBinaryOp ops n sheet ''/'' left right visited =
           Some (Inl (Error None ''Division by zero''))"
  using assms
  by (auto simp: evaluateBinaryOp.simps binary_result_def numeric_case_def num_eq_def is_zero_def)

lemma division_by_zero_cell:
  assumes "sheet_cells sheet a = Some (FormulaCell src (BinaryOp ''/'' left right))"
    and "evaluateAst ops n sheet left {a} = Some (Inr (Scalar (VNumber l), visited1))"
    and "evaluateAst ops n sheet right visited1 = Some (Inr (Scalar (VNumber r), visited2))"
    and "is_zero r"
  shows "evaluateCell ops n sheet a =
           Some \<lparr>result_value = VNull, result_error = Some (''EVAL'', ''Division by zero'')\<rparr>"
  using assms(1) division_by_zero_throws[OF assms(2,3,4)] by (simp add: evaluateCell_def)

text \<open>
  Claim C2 says that a division of a number by exactly 0 gives error code \<open>DIV0\<close>.
  The engine throws \<open>new Error("Division by zero")\<close> without a \<open>code\<close> property, and
  \<open>evaluateCell\<close> substitutes \<open>EVAL\<close> for a missing code: the cell \<open>=1/0\<close> evaluates
  to a null value with error code \<open>EVAL\<close>, for every depth bound. Lemma
  \<open>division_by_zero_cell\<close> above shows the same for every division whose operands
  evaluate to a number and to a zero.
\<close>

theorem division_by_zero_code:
  "evaluateCell ops n division_sheet ''A1'' =
     Some \<lparr>result_value = VNull, result_error = Some (''EVAL'', ''Division by zero'')\<rparr>"
  by (rule division_by_zero_cell[where src = "''=1/0''" and left = "NumberLiteral (Num 1)"
        and right = "NumberLiteral (Num 0)" and r = "Num 0"])
     (simp_all add: division_sheet_def is_zero_def)

lemma SUM_skips_error_cell:
  "evaluateCell ops n error_column_sheet ''B1'' =
     Some \<lparr>result_value = VNumber (arith_add ops (arith_add ops (Num 0) (Num 1)) (Num 2)),
           result_error = None\<rparr>"
  by (simp add: evaluateCell_def error_column_sheet_def evaluateFunction.simps range_A1_A3
      exact_range_A1_A3 evaluateCellRef.simps toUpperCase_def SUM_of_def)

lemma error_cell_reference:
  assumes "sheet_cells sheet address = Some (ErrorCell message code)"
  shows "evaluateCellRef ops n sheet address visited =
           (if address \<in> visited
            then Some (Inl (Error (Some ''CYCLE'') ''Circular reference detected''))
            else Some (Inr (VNull, insert address visited)))"
    and "a \<noteq> address \<Longrightarrow>
         sheet_cells sheet a = Some (FormulaCell src (CellRef address absCol absRow)) \<Longrightarrow>
         evaluateCell ops n sheet a = Some \<lparr>result_value = VNull, result_error = None\<rparr>"
  using assms by (simp_all add: evaluateCellRef.simps evaluateCell_def)

text \<open>
  Claim C10 says that every reference from a formula to an error cell evaluates to the
  scalar null. The first reference in an evaluation does (lemma
  \<open>error_cell_reference\<close> above, and \<open>SUM\<close> over a column with an error cell is the
  sum of the other cells): the code and the message the cell stores are never read.
  But \<open>evaluateCellRef\<close> returns for an error cell with the address still in
  \<open>visited\<close>, so a second reference in the same evaluation throws: with \<open>A2\<close> an
  error cell, the formula \<open>=A2=A2\<close> evaluates to error code \<open>CYCLE\<close>, not to the
  comparison of null with null.
\<close>

theorem error_cell_second_reference:
  "evaluateCell ops n error_column_sheet ''C1'' =
     Some \<lparr>result_value = VNull,
           result_error = Some (''CYCLE'', ''Circular reference detected'')\<rparr>"
  by (simp add: evaluateCell_def error_column_sheet_def evaluateBinaryOp.simps
        evaluateCellRef.simps)

lemma truthy_cases:
  "(js_truthy cond \<and> \<not> value_equal cond (VNumber (Num 0)) \<and> \<not> value_equal cond (VString [])) =
   (cond \<noteq> VNull \<and> cond \<noteq> VBoolean False \<and> cond \<noteq> VNumber (Num 0) \<and>
                       cond \<noteq> VNumber NegZero \<and> cond \<noteq> VNumber NaN \<and> cond \<noteq> VString [])"
  by (cases cond) (auto simp: js_truthy_def num_eq_def is_zero_def)

lemma IF_wrong_arity:
  assumes "toUpperCase name = ''IF''" "length args \<noteq> 3"
  shows "evaluateFunction ops n sheet name args visited =
           Some (Inl (Error None ''IF requires exactly 3 arguments''))"
proof -
  have "(case args of [c, t, e] \<Rightarrow> f c t e | _ \<Rightarrow> g) = g" for f :: "FormulaAst \<Rightarrow> FormulaAst \<Rightarrow> FormulaAst \<Rightarrow> 'x" and g
    using assms(2) by (auto split: list.splits)
  then show ?thesis using assms(1) by (simp add: evaluateFunction.simps)
qed

lemma IF_three_arguments:
  assumes "toUpperCase name = ''IF''"
    and "evaluateAst ops n sheet c visited = Some (Inr (Scalar cond, visited1))"
  shows "evaluateFunction ops n sheet name [c, t, e] visited =
           (case evaluateAst ops n sheet
                   (if cond \<noteq> VNull \<and> cond \<noteq> VBoolean False \<and> cond \<noteq> VNumber (Num 0) \<and>
                       cond \<noteq> VNumber NegZero \<and> cond \<noteq> VNumber NaN \<and> cond \<noteq> VString []
                    then t else e) visited1 of
              None \<Rightarrow> None
            | Some (Inl err) \<Rightarrow> Some (Inl err)
            | Some (Inr (Scalar v, visited2)) \<Rightarrow> Some (Inr (v, visited2))
            | Some (Inr (Array vs, visited2)) \<Rightarrow>
                Some (Inl (Error None ''IF branch result: ranges are not allowed here'')))"
  using assms
  by (simp add: evaluateFunction.simps ensureScalar_def truthy_cases
           split: option.splits sum.splits AstValue.splits)

lemma IF_ignores_unselected:
  assumes "toUpperCase name = ''IF''"
    and "evaluateAst ops n sheet c visited = Some (Inr (Scalar cond, visited1))"
  shows "cond \<noteq> VNull \<and> cond \<noteq> VBoolean False \<and> cond \<noteq> VNumber (Num 0) \<and>
                       cond \<noteq> VNumber NegZero \<and> cond \<noteq> VNumber NaN \<and> cond \<noteq> VString [] \<Longrightarrow>
           evaluateFunction ops n sheet name [c, t, e] visited =
           evaluateFunction ops n sheet name [c, t, e'] visited"
    and "\<not> (cond \<noteq> VNull \<and> cond \<noteq> VBoolean False \<and> cond \<noteq> VNumber (Num 0) \<and>
                       cond \<noteq> VNumber NegZero \<and> cond \<noteq> VNumber NaN \<and> cond \<noteq> VString []) \<Longrightarrow>
           evaluateFunction ops n sheet name [c, t, e] visited =
           evaluateFunction ops n sheet name [c, t', e] visited"
  by (auto simp: IF_three_arguments[OF assms])

text \<open>
  Claim C6, amended. Let the function name be \<open>IF\<close> in any letter case. For three
  arguments whose condition evaluates to a scalar, the call evaluates the second
  argument when the condition is not null, not false, not a zero (0 or -0), not
  \<open>NaN\<close> and not the empty string, and the third argument otherwise; it returns the scalar value of that argument
  (a range there is an error), and its outcome is determined by the condition and
  the selected argument alone, the other argument is not evaluated. With an argument
  count other than 3 the call throws, and a formula cell that is such a call
  evaluates to a null value with error code \<open>EVAL\<close>.
\<close>

theorem IF_selects_one_branch:
  assumes name: "toUpperCase name = ''IF''"
  shows "(\<forall>c t e cond visited1.
            evaluateAst ops n sheet c visited = Some (Inr (Scalar cond, visited1)) \<longrightarrow>
            evaluateFunction ops n sheet name [c, t, e] visited =
              (case evaluateAst ops n sheet
                      (if cond \<noteq> VNull \<and> cond \<noteq> VBoolean False \<and> cond \<noteq> VNumber (Num 0) \<and>
                       cond \<noteq> VNumber NegZero \<and> cond \<noteq> VNumber NaN \<and> cond \<noteq> VString []
                       then t else e) visited1 of
                 None \<Rightarrow> None
               | Some (Inl err) \<Rightarrow> Some (Inl err)
               | Some (Inr (Scalar v, visited2)) \<Rightarrow> Some (Inr (v, visited2))
               | Some (Inr (Array vs, visited2)) \<Rightarrow>
                   Some (Inl (Error None ''IF branch result: ranges are not allowed here'')))) \<and>
         (\<forall>args. length args \<noteq> 3 \<longrightarrow>
            evaluateFunction ops n sheet name args visited =
              Some (Inl (Error None ''IF requires exactly 3 arguments''))) \<and>
         (\<forall>args a src.
            length args \<noteq> 3 \<and> sheet_cells sheet a = Some (FormulaCell src (FunctionCall name args)) \<longrightarrow>
            evaluateCell ops n sheet a =
              Some \<lparr>result_value = VNull,
                    result_error = Some (''EVAL'', ''IF requires exactly 3 arguments'')\<rparr>)"
proof (intro conjI allI impI)
  fix c t e cond visited1
  assume "evaluateAst ops n sheet c visited = Some (Inr (Scalar cond, visited1))"
  from IF_three_arguments[OF name this]
  show "evaluateFunction ops n sheet name [c, t, e] visited =
              (case evaluateAst ops n sheet
                      (if cond \<noteq> VNull \<and> cond \<noteq> VBoolean False \<and> cond \<noteq> VNumber (Num 0) \<and>
                       cond \<noteq> VNumber NegZero \<and> cond \<noteq> VNumber NaN \<and> cond \<noteq> VString []
                       then t else e) visited1 of
                 None \<Rightarrow> None
               | Some (Inl err) \<Rightarrow> Some (Inl err)
               | Some (Inr (Scalar v, visited2)) \<Rightarrow> Some (Inr (v, visited2))
               | Some (Inr (Array vs, visited2)) \<Rightarrow>
                   Some (Inl (Error None ''IF branch result: ranges are not allowed here'')))" .
next
  fix args :: "FormulaAst list"
  assume "length args \<noteq> 3"
  then show "evaluateFunction ops n sheet name args visited =
              Some (Inl (Error None ''IF requires exactly 3 arguments''))"
    by (rule IF_wrong_arity[OF name])
next
  fix args :: "FormulaAst list" and a src
  assume h: "length args \<noteq> 3 \<and> sheet_cells sheet a = Some (FormulaCell src (FunctionCall name args))"
  then have "evaluateFunction ops n sheet name args {a} =
              Some (Inl (Error None ''IF requires exactly 3 arguments''))"
    by (intro IF_wrong_arity[OF name]) simp
  with h show "evaluateCell ops n sheet a =
              Some \<lparr>result_value = VNull,
                    result_error = Some (''EVAL'', ''IF requires exactly 3 arguments'')\<rparr>"
    by (simp add: evaluateCell_def)
qed


theorem IF_selects_one_branch_witness:
  "toUpperCase ''IF'' = ''IF'' \<and>
   evaluateFunction exact_arithmetic 0 empty_sheet ''IF''
     [BinaryOp ''>'' (NumberLiteral (Num 1)) (NumberLiteral (Num 0)), StringLiteral ''yes'', StringLiteral ''no'']
     {} = Some (Inr (VString ''yes'', {})) \<and>
   evaluateFunction exact_arithmetic 0 empty_sheet ''IF''
     [BinaryOp ''='' (NumberLiteral (Num 5)) (NumberLiteral (Num 5)), NumberLiteral (Num 10), NumberLiteral (Num 20)]
     {} = Some (Inr (VNumber (Num 10), {})) \<and>
   evaluateFunction exact_arithmetic 0 empty_sheet ''IF''
     [BinaryOp ''<>'' (NumberLiteral (Num 3)) (NumberLiteral (Num 3)), NumberLiteral (Num 1), NumberLiteral (Num 2)]
     {} = Some (Inr (VNumber (Num 2), {})) \<and>
   evaluateFunction exact_arithmetic 0 empty_sheet ''IF''
     [BinaryOp ''^'' (BinaryOp ''-'' (NumberLiteral (Num 0)) (NumberLiteral (Num 8)))
                    (NumberLiteral (Num (1 / 2))),
      NumberLiteral (Num 1), NumberLiteral (Num 2)]
     {} = Some (Inr (VNumber (Num 2), {})) \<and>
   evaluateFunction exact_arithmetic 0 empty_sheet ''IF'' [NumberLiteral (Num 1), NumberLiteral (Num 2)] {} =
     Some (Inl (Error None ''IF requires exactly 3 arguments''))"
proof -
  have name: "toUpperCase ''IF'' = ''IF''" by (simp add: toUpperCase_def)
  note inst = IF_selects_one_branch[OF name, of exact_arithmetic 0 empty_sheet "{}"]
  have c1: "evaluateAst exact_arithmetic 0 empty_sheet (BinaryOp ''>'' (NumberLiteral (Num 1)) (NumberLiteral (Num 0))) {} =
              Some (Inr (Scalar (VBoolean True), {}))"
    by (simp add: evaluateBinaryOp.simps binary_result_def numeric_case_def num_defs)
  have c2: "evaluateAst exact_arithmetic 0 empty_sheet (BinaryOp ''='' (NumberLiteral (Num 5)) (NumberLiteral (Num 5))) {} =
              Some (Inr (Scalar (VBoolean True), {}))"
    by (simp add: evaluateBinaryOp.simps binary_result_def numeric_case_def num_defs)
  have c3: "evaluateAst exact_arithmetic 0 empty_sheet (BinaryOp ''<>'' (NumberLiteral (Num 3)) (NumberLiteral (Num 3))) {} =
              Some (Inr (Scalar (VBoolean False), {}))"
    by (simp add: evaluateBinaryOp.simps binary_result_def numeric_case_def num_defs)
  have c4: "evaluateAst exact_arithmetic 0 empty_sheet
               (BinaryOp ''^'' (BinaryOp ''-'' (NumberLiteral (Num 0)) (NumberLiteral (Num 8)))
                              (NumberLiteral (Num (1 / 2)))) {} =
              Some (Inr (Scalar (VNumber NaN), {}))"
    by (simp add: evaluateBinaryOp.simps binary_result_def numeric_case_def num_defs
          exact_arithmetic_def pow_negative_base_fraction)
  have "evaluateFunction exact_arithmetic 0 empty_sheet ''IF''
     [BinaryOp ''>'' (NumberLiteral (Num 1)) (NumberLiteral (Num 0)), StringLiteral ''yes'', StringLiteral ''no'']
     {} = Some (Inr (VString ''yes'', {}))"
    using inst c1 by simp
  moreover have "evaluateFunction exact_arithmetic 0 empty_sheet ''IF''
     [BinaryOp ''='' (NumberLiteral (Num 5)) (NumberLiteral (Num 5)), NumberLiteral (Num 10), NumberLiteral (Num 20)]
     {} = Some (Inr (VNumber (Num 10), {}))"
    using inst c2 by simp
  moreover have "evaluateFunction exact_arithmetic 0 empty_sheet ''IF''
     [BinaryOp ''<>'' (NumberLiteral (Num 3)) (NumberLiteral (Num 3)), NumberLiteral (Num 1), NumberLiteral (Num 2)]
     {} = Some (Inr (VNumber (Num 2), {}))"
    using inst c3 by simp
  moreover have "evaluateFunction exact_arithmetic 0 empty_sheet ''IF''
     [BinaryOp ''^'' (BinaryOp ''-'' (NumberLiteral (Num 0)) (NumberLiteral (Num 8)))
                    (NumberLiteral (Num (1 / 2))),
      NumberLiteral (Num 1), NumberLiteral (Num 2)]
     {} = Some (Inr (VNumber (Num 2), {}))"
    using inst c4 by simp
  moreover have "evaluateFunction exact_arithmetic 0 empty_sheet ''IF'' [NumberLiteral (Num 1), NumberLiteral (Num 2)] {} =
     Some (Inl (Error None ''IF requires exactly 3 arguments''))"
    using inst by simp
  ultimately show ?thesis using name by simp
qed

text \<open>
  Claim C6 as stated fails: the condition \<open>3<>3\<close> evaluates to \<open>false\<close>, which is
  not null, not 0 and not the empty string, yet \<open>IF(3<>3,1,2)\<close> returns its third
  argument, 2, and not the value 1 of the second.
\<close>

theorem IF_truthiness_counterexample:
  "evaluateAst exact_arithmetic 0 empty_sheet (BinaryOp ''<>'' (NumberLiteral (Num 3)) (NumberLiteral (Num 3))) {} =
     Some (Inr (Scalar (VBoolean False), {})) \<and>
   claimed_truthy (VBoolean False) \<and>
   evaluateFunction exact_arithmetic 0 empty_sheet ''IF''
     [BinaryOp ''<>'' (NumberLiteral (Num 3)) (NumberLiteral (Num 3)), NumberLiteral (Num 1), NumberLiteral (Num 2)]
     {} = Some (Inr (VNumber (Num 2), {})) \<and>
   evaluateAst exact_arithmetic 0 empty_sheet (NumberLiteral (Num 1)) {} = Some (Inr (Scalar (VNumber (Num 1)), {}))"
  by (simp add: evaluateBinaryOp.simps evaluateFunction.simps binary_result_def numeric_case_def
        claimed_truthy_def toUpperCase_def ensureScalar_def js_truthy_def num_defs)

end
